theory Spec2Isabelle
  imports Complex_Main "HOL-Library.Sublist" "HOL-Library.Multiset"
begin

section \<open>Data model (src/types.ts)\<close>

text \<open>
  A JavaScript \<open>number\<close> is modelled as a real; the one non-real value that the engine can
  produce from real inputs, \<open>NaN\<close>, is kept as a value of its own (\<open>num\<close>), so that a
  division \<open>0 / 0\<close> or arithmetic on \<open>undefined\<close> is a branch of the model. Rounding error
  and overflow of IEEE doubles are not modelled.
\<close>

datatype num = NaN | Fin real

type_synonym MaybeNum = "real option"

type_synonym cells = "MaybeNum list list"

text \<open>A grid computed by the engine: its cells are \<open>null\<close>, \<open>NaN\<close> or real.\<close>

type_synonym blended = "num option list list"

text \<open>An entry of \<open>pressure_altitudes_ft\<close>: a number or the literal \<open>'SL'\<close>.\<close>

datatype pa_entry = SL | Ft real

record Speeds =
  liftoff :: real
  at_50ft :: real

record WeightTable =
  weight_lb :: real
  speeds_kias :: Speeds
  ground_roll_ft :: cells
  to_clear_50ft_ft :: cells

record Grid =
  pressure_altitudes_ft :: "pa_entry list"
  temperatures_c :: "real list"
  weights :: "WeightTable list"

text \<open>Of \<open>DataSchema\<close> only the field \<open>grid\<close> is read by the engine.\<close>

record DataSchema =
  grid :: Grid

record CalcInput =
  pressureAltitudeFt :: real
  oatC :: real
  weightLb :: real
  windKtSigned :: real
  dryGrass :: bool

text \<open>
  A note is a template literal: text with numbers spliced in, either by plain substitution
  (\<open>Number.prototype.toString\<close>) or by \<open>x.toFixed(0)\<close>.
\<close>

datatype piece = Txt string | NumStr real | Fixed0 real

type_synonym advisory = "piece list"

text \<open>The field \<open>notes\<close> of the source is \<open>out_notes\<close> here.\<close>

record CalcOutput =
  groundRollFt :: "num option"
  toClear50Ft :: "num option"
  liftoffKIAS :: "num option"
  at50ftKIAS :: "num option"
  out_notes :: "advisory list"

text \<open>The only exception the engine can throw: a property read on \<open>undefined\<close>.\<close>

datatype fault = TypeError

section \<open>Helpers of src/lib/perf.ts\<close>

fun normalizePA :: "pa_entry \<Rightarrow> real" where
  "normalizePA SL = 0"
| "normalizePA (Ft pa) = pa"

text \<open>The \<open>while\<close> loop of \<open>clampIndex\<close>, started at \<open>i\<close>.\<close>

function scan :: "real \<Rightarrow> real list \<Rightarrow> nat \<Rightarrow> nat" where
  "scan x axis i = (if i + 1 < length axis \<and> x > axis ! (i + 1) then scan x axis (i + 1) else i)"
  by pat_completeness auto
termination
  by (relation "measure (\<lambda>(x, axis, i). length axis - i)") auto

declare scan.simps [simp del]

text \<open>
  On an empty axis both \<open>axis[0]\<close> and \<open>axis[axis.length - 1]\<close> are \<open>undefined\<close>, both
  comparisons are false and the loop does not run: the result is \<open>0\<close>.
\<close>

definition clampIndex :: "real \<Rightarrow> real list \<Rightarrow> nat option" where
  "clampIndex x axis =
     (if axis = [] then Some 0
      else if x < axis ! 0 \<or> x > axis ! (length axis - 1) then None
      else Some (scan x axis 0))"

definition lerp :: "real \<Rightarrow> real \<Rightarrow> real \<Rightarrow> real" where
  "lerp a b t = a + (b - a) * t"

text \<open>\<open>row[j]\<close> on a row of cells: \<open>null\<close> and \<open>undefined\<close> (out of range) are both \<open>== null\<close>.\<close>

definition cell :: "'a option list \<Rightarrow> nat \<Rightarrow> 'a option" where
  "cell r j = (if j < length r then r ! j else None)"

text \<open>
  \<open>g[i][j]\<close>, the cell reads of \<open>bilinear\<close> and the callback that both calls of
  \<open>weightInterp\<close> pass as \<open>pick\<close>: it throws when \<open>g[i]\<close> is \<open>undefined\<close>.
\<close>

definition pick :: "'a option list list \<Rightarrow> nat \<Rightarrow> nat \<Rightarrow> fault + 'a option" where
  "pick g i j = (if i < length g then Inr (cell (g ! i) j) else Inl TypeError)"

text \<open>
  \<open>(x - x0) / (x1 - x0)\<close> where \<open>x0 = axis[i]\<close> and \<open>x1 = axis[i + 1]\<close>: \<open>NaN\<close> when an
  operand is \<open>undefined\<close>, and when \<open>x1 = x0\<close> (then \<open>x = x0\<close> too, see
  \<open>clampIndex_bracket\<close>, and the quotient is \<open>0 / 0\<close>).
\<close>

definition axis_frac :: "real \<Rightarrow> real list \<Rightarrow> nat \<Rightarrow> num" where
  "axis_frac x axis i =
     (if i + 1 < length axis \<and> axis ! (i + 1) - axis ! i \<noteq> 0
      then Fin ((x - axis ! i) / (axis ! (i + 1) - axis ! i))
      else NaN)"

text \<open>\<open>lerp\<close> on operands that may be \<open>NaN\<close>: the result is \<open>NaN\<close> as soon as one of them is.\<close>

fun lerp_num :: "num \<Rightarrow> num \<Rightarrow> num \<Rightarrow> num" where
  "lerp_num (Fin a) (Fin b) (Fin t) = Fin (lerp a b t)"
| "lerp_num _ _ _ = NaN"

definition bilinear :: "real \<Rightarrow> real \<Rightarrow> real list \<Rightarrow> real list \<Rightarrow> blended \<Rightarrow> fault + num option" where
  "bilinear x y xs ys g =
     (case (clampIndex x xs, clampIndex y ys) of
        (Some i, Some j) \<Rightarrow>
          (case pick g i j of Inl e \<Rightarrow> Inl e | Inr q11 \<Rightarrow>
          (case pick g i (j + 1) of Inl e \<Rightarrow> Inl e | Inr q12 \<Rightarrow>
          (case pick g (i + 1) j of Inl e \<Rightarrow> Inl e | Inr q21 \<Rightarrow>
          (case pick g (i + 1) (j + 1) of Inl e \<Rightarrow> Inl e | Inr q22 \<Rightarrow>
          (case (q11, q12, q21, q22) of
             (Some a, Some b, Some c, Some d) \<Rightarrow>
               (let tx = axis_frac x xs i; ty = axis_frac y ys j;
                    r1 = lerp_num a b ty; r2 = lerp_num c d ty
                in Inr (Some (lerp_num r1 r2 tx)))
           | _ \<Rightarrow> Inr None)))))
      | _ \<Rightarrow> Inr None)"

text \<open>Sequencing of a loop body that may throw.\<close>

fun mapE :: "('a \<Rightarrow> fault + 'b) \<Rightarrow> 'a list \<Rightarrow> fault + 'b list" where
  "mapE f [] = Inr []"
| "mapE f (x # xs) =
     (case f x of Inl e \<Rightarrow> Inl e
      | Inr y \<Rightarrow> (case mapE f xs of Inl e \<Rightarrow> Inl e | Inr ys \<Rightarrow> Inr (y # ys)))"

text \<open>The divisor \<open>upper.w - lower.w || 1\<close>: a difference of \<open>0\<close> is replaced by \<open>1\<close>.\<close>

definition or1 :: "real \<Rightarrow> real" where
  "or1 d = (if d = 0 then 1 else d)"

text \<open>
  The weight fraction \<open>(w - lower.w) / (upper.w - lower.w || 1)\<close>, computed in
  \<open>calculate\<close> and again in \<open>weightInterp\<close>. A JavaScript division by \<open>0\<close> does not throw:
  \<open>0 / 0\<close> is \<open>NaN\<close>, the value of the zero-divisor branch here (in \<open>calculate\<close> a zero
  difference of the two weights comes with a zero numerator, see \<open>bracket_encloses\<close>).
  With the guard the divisor is never \<open>0\<close> and that branch is never taken.
\<close>

definition weight_frac :: "real \<Rightarrow> real \<Rightarrow> real \<Rightarrow> num" where
  "weight_frac w lw uw =
     (let d = or1 (uw - lw) in if d = 0 then NaN else Fin ((w - lw) / d))"

definition blend :: "MaybeNum \<Rightarrow> MaybeNum \<Rightarrow> num \<Rightarrow> num option" where
  "blend a b t = (case (a, b) of (Some a', Some b') \<Rightarrow> Some (lerp_num (Fin a') (Fin b') t) | _ \<Rightarrow> None)"

text \<open>The body of the inner loop: \<open>pick(lower.grid, i, j)\<close>, \<open>pick(upper.grid, i, j)\<close>, blend.\<close>

definition blend_at :: "cells \<Rightarrow> cells \<Rightarrow> num \<Rightarrow> nat \<Rightarrow> nat \<Rightarrow> fault + num option" where
  "blend_at lgrid ugrid t i j =
     (case pick lgrid i j of Inl e \<Rightarrow> Inl e
      | Inr a \<Rightarrow> (case pick ugrid i j of Inl e \<Rightarrow> Inl e | Inr b \<Rightarrow> Inr (blend a b t)))"

definition weightInterp :: "real \<Rightarrow> real \<Rightarrow> cells \<Rightarrow> real \<Rightarrow> cells \<Rightarrow> fault + blended" where
  "weightInterp w lw lgrid uw ugrid =
     (case lgrid of
        [] \<Rightarrow> Inl TypeError
      | r0 # _ \<Rightarrow>
          (let rows = length lgrid; cols = length r0; t = weight_frac w lw uw
           in mapE (\<lambda>i. mapE (\<lambda>j. blend_at lgrid ugrid t i j) [0..<cols]) [0..<rows]))"

section \<open>calculate\<close>

text \<open>\<open>Math.round\<close>: the nearest integer, ties towards \<open>+\<infinity>\<close>.\<close>

definition math_round :: "real \<Rightarrow> real" where
  "math_round x = of_int \<lfloor>x + 1 / 2\<rfloor>"

fun round_num :: "num \<Rightarrow> num" where
  "round_num NaN = NaN"
| "round_num (Fin x) = Fin (math_round x)"

fun num_times :: "num \<Rightarrow> real \<Rightarrow> num" where
  "num_times NaN k = NaN"
| "num_times (Fin x) k = Fin (x * k)"

fun num_add :: "num \<Rightarrow> num \<Rightarrow> num" where
  "num_add (Fin x) (Fin y) = Fin (x + y)"
| "num_add _ _ = NaN"

definition weight_note :: "real \<Rightarrow> real \<Rightarrow> real \<Rightarrow> advisory" where
  "weight_note w wMin wMax =
     [Txt ''Weight '', Fixed0 w, Txt '' lb outside table range '', NumStr wMin, Txt ''-'',
      NumStr wMax, Txt '' lb.'']"

definition clamp_note :: "real \<Rightarrow> advisory" where
  "clamp_note paRaw =
     [Txt ''Pressure altitude '', NumStr paRaw,
      Txt '' ft below POH grid; clamped to sea level (0 ft).'']"

definition extrapolation_note :: advisory where
  "extrapolation_note =
     [Txt ''Requested conditions require extrapolation beyond POH grid or hit a null cell.'']"

definition weightsSorted :: "DataSchema \<Rightarrow> WeightTable list" where
  "weightsSorted data = sort_key weight_lb (weights (grid data))"

text \<open>The bracketing loop: the first adjacent pair that encloses the weight, if any.\<close>

fun bracket_scan :: "real \<Rightarrow> WeightTable list \<Rightarrow> (WeightTable \<times> WeightTable) option" where
  "bracket_scan w (a # b # rest) =
     (if w \<ge> weight_lb a \<and> w \<le> weight_lb b then Some (a, b) else bracket_scan w (b # rest))"
| "bracket_scan w _ = None"

definition bracket :: "real \<Rightarrow> WeightTable list \<Rightarrow> WeightTable \<times> WeightTable" where
  "bracket w ws = (case bracket_scan w ws of Some p \<Rightarrow> p | None \<Rightarrow> (hd ws, last ws))"

text \<open>
  The two wind factors, in exact arithmetic. The engine computes them and their products in
  doubles, whose rounding error is not modelled (see the first section): a product that
  lies within that error of a half-integer can be rounded by \<open>Math.round\<close> to the other
  side. With 525 ft and a headwind of 15 kt the exact product is 437.5, which rounds to
  438, and the product in doubles is 437.49999999999994, which rounds to 437.
\<close>

definition headwind_factor :: "real \<Rightarrow> real" where
  "headwind_factor wind = max (1 - (wind / 9) * 0.10) 0.5"

definition tailwind_factor :: "real \<Rightarrow> real" where
  "tailwind_factor wind = 1 + (min \<bar>wind\<bar> 10 / 10) * 0.10"

text \<open>Lines 160 to 173: the wind adjustment of both distances.\<close>

definition apply_wind :: "real \<Rightarrow> num \<times> num \<Rightarrow> num \<times> num" where
  "apply_wind wind d =
     (case d of (roll, over50) \<Rightarrow>
        if wind > 0 then (num_times roll (headwind_factor wind), num_times over50 (headwind_factor wind))
        else if wind < 0 then (num_times roll (tailwind_factor wind), num_times over50 (tailwind_factor wind))
        else (roll, over50))"

text \<open>Lines 175 to 180: the dry grass increment, computed once from the ground roll.\<close>

definition apply_grass :: "bool \<Rightarrow> num \<times> num \<Rightarrow> num \<times> num" where
  "apply_grass g d =
     (case d of (roll, over50) \<Rightarrow>
        if g then (let grassInc = num_times roll 0.15 in (num_add roll grassInc, num_add over50 grassInc))
        else (roll, over50))"

text \<open>Lines 160 to 188: wind, surface, rounding, on the two distances of the lookup.\<close>

definition finish :: "CalcInput \<Rightarrow> num \<Rightarrow> num \<Rightarrow> num \<times> num" where
  "finish inp roll0 over0 =
     (case apply_grass (dryGrass inp) (apply_wind (windKtSigned inp) (roll0, over0)) of
        (roll, over50) \<Rightarrow> (round_num roll, round_num over50))"

definition calculate :: "DataSchema \<Rightarrow> CalcInput \<Rightarrow> fault + CalcOutput" where
  "calculate data inp =
     (let xs = map normalizePA (pressure_altitudes_ft (grid data));
          ys = temperatures_c (grid data);
          ws = weightsSorted data
      in if ws = [] then Inl TypeError
      else
        (let wMin = weight_lb (hd ws);
             wMax = weight_lb (last ws);
             w = weightLb inp
         in if w < wMin \<or> w > wMax
            then Inr \<lparr>groundRollFt = None, toClear50Ft = None, liftoffKIAS = None,
                      at50ftKIAS = None, out_notes = [weight_note w wMin wMax]\<rparr>
            else
              (let (lower, upper) = bracket w ws;
                   tw = weight_frac w (weight_lb lower) (weight_lb upper);
                   liftoffK = round_num (lerp_num (Fin (liftoff (speeds_kias lower)))
                                                  (Fin (liftoff (speeds_kias upper))) tw);
                   at50K = round_num (lerp_num (Fin (at_50ft (speeds_kias lower)))
                                               (Fin (at_50ft (speeds_kias upper))) tw)
               in case weightInterp w (weight_lb lower) (ground_roll_ft lower)
                         (weight_lb upper) (ground_roll_ft upper) of
                    Inl e \<Rightarrow> Inl e
                  | Inr rollGrid \<Rightarrow>
               (case weightInterp w (weight_lb lower) (to_clear_50ft_ft lower)
                         (weight_lb upper) (to_clear_50ft_ft upper) of
                    Inl e \<Rightarrow> Inl e
                  | Inr over50Grid \<Rightarrow>
                 (let paRaw = pressureAltitudeFt inp;
                      clamped = (xs \<noteq> [] \<and> paRaw < xs ! 0);
                      pa = (if clamped then xs ! 0 else paRaw);
                      ns = (if clamped then [clamp_note paRaw] else []);
                      oat = oatC inp
                  in case bilinear pa oat xs ys rollGrid of Inl e \<Rightarrow> Inl e | Inr roll \<Rightarrow>
                    (case bilinear pa oat xs ys over50Grid of Inl e \<Rightarrow> Inl e | Inr over50 \<Rightarrow>
                    (case (roll, over50) of
                       (Some roll0, Some over0) \<Rightarrow>
                         (let (rollR, overR) = finish inp roll0 over0
                          in Inr \<lparr>groundRollFt = Some rollR, toClear50Ft = Some overR,
                                  liftoffKIAS = Some liftoffK, at50ftKIAS = Some at50K,
                                  out_notes = ns\<rparr>)
                     | _ \<Rightarrow>
                         Inr \<lparr>groundRollFt = None, toClear50Ft = None,
                              liftoffKIAS = Some liftoffK, at50ftKIAS = Some at50K,
                              out_notes = extrapolation_note # ns\<rparr>)))))))"

text \<open>A result that carries one more note at the end of its list; a fault stays a fault.\<close>

definition with_note :: "advisory \<Rightarrow> fault + CalcOutput \<Rightarrow> fault + CalcOutput" where
  "with_note n r = map_sum id (\<lambda>out. out\<lparr>out_notes := out_notes out @ [n]\<rparr>) r"

text \<open>The altitude that the lookup is made at (lines 138 to 140).\<close>

definition working_pa :: "DataSchema \<Rightarrow> CalcInput \<Rightarrow> real" where
  "working_pa data inp =
     (if pressure_altitudes_ft (grid data) \<noteq> []
         \<and> pressureAltitudeFt inp < normalizePA (hd (pressure_altitudes_ft (grid data)))
      then normalizePA (hd (pressure_altitudes_ft (grid data)))
      else pressureAltitudeFt inp)"

text \<open>The factor that the wind adjustment multiplies both distances by.\<close>

definition wind_mult :: "real \<Rightarrow> real" where
  "wind_mult wind =
     (if wind > 0 then headwind_factor wind else if wind < 0 then tailwind_factor wind else 1)"

section \<open>The data-model invariants\<close>

definition dims_ok :: "nat \<Rightarrow> nat \<Rightarrow> cells \<Rightarrow> bool" where
  "dims_ok n m g = (length g = n \<and> list_all (\<lambda>r. length r = m) g)"

text \<open>
  The invariants of the specification's data model: at least two weight rows, with distinct
  weights; both axes non-empty and strictly increasing after normalization; every grid of the
  dimensions of the axes.
\<close>

definition table_inv :: "DataSchema \<Rightarrow> bool" where
  "table_inv data =
     (let xs = map normalizePA (pressure_altitudes_ft (grid data));
          ys = temperatures_c (grid data);
          ws = weights (grid data)
      in 2 \<le> length ws \<and> distinct (map weight_lb ws)
         \<and> xs \<noteq> [] \<and> sorted_wrt (<) xs \<and> ys \<noteq> [] \<and> sorted_wrt (<) ys
         \<and> list_all (\<lambda>r. dims_ok (length xs) (length ys) (ground_roll_ft r)
                          \<and> dims_ok (length xs) (length ys) (to_clear_50ft_ft r)) ws)"



section \<open>Rendering of the notes\<close>

text \<open>
  The decimal digits of a natural number, and the two number formats of the notes.
  \<open>toFixed(0)\<close> rounds the magnitude to the nearest integer, ties upwards, and keeps the
  sign of the number (so \<open>(-0.4).toFixed(0)\<close> is \<open>-0\<close>). Plain substitution prints an
  integral number in decimal; for a number that is not integral the digits depend on the
  double itself, and the rendering is left undefined (\<open>None\<close>), as it is for magnitudes of
  \<open>10^21\<close> and above, which print in exponent form.
\<close>

definition digit :: "nat \<Rightarrow> char" where
  "digit d = ''0123456789'' ! d"

fun show_nat :: "nat \<Rightarrow> string" where
  "show_nat n = (if n < 10 then [digit n] else show_nat (n div 10) @ [digit (n mod 10)])"

declare show_nat.simps [simp del]

definition sign_str :: "real \<Rightarrow> string" where
  "sign_str r = (if r < 0 then ''-'' else [])"

fun render_piece :: "piece \<Rightarrow> string option" where
  "render_piece (Txt s) = Some s"
| "render_piece (NumStr r) =
     (if r = of_int \<lfloor>r\<rfloor> \<and> \<bar>r\<bar> < 10 ^ 21 then Some (sign_str r @ show_nat (nat \<lfloor>\<bar>r\<bar>\<rfloor>)) else None)"
| "render_piece (Fixed0 r) =
     (if \<bar>r\<bar> < 10 ^ 21 then Some (sign_str r @ show_nat (nat \<lfloor>\<bar>r\<bar> + 1 / 2\<rfloor>)) else None)"

definition render :: "advisory \<Rightarrow> string option" where
  "render n = map_option concat (those (map render_piece n))"

section \<open>Concrete tables and requests\<close>

definition req :: "real \<Rightarrow> real \<Rightarrow> real \<Rightarrow> real \<Rightarrow> bool \<Rightarrow> CalcInput" where
  "req w pa oat wind g =
     \<lparr>pressureAltitudeFt = pa, oatC = oat, weightLb = w, windKtSigned = wind, dryGrass = g\<rparr>"

text \<open>
  The two-row table of the specification's scenarios: weights 900 and 1000 lb, altitudes 0 and
  2000 ft, temperatures 0 and 20 degrees, ground roll independent of the temperature. The
  scenarios leave the speeds and the clear-50 grids open.
\<close>

definition toy_row :: "real \<Rightarrow> Speeds \<Rightarrow> real \<Rightarrow> real \<Rightarrow> cells \<Rightarrow> WeightTable" where
  "toy_row wt sp r0 r2000 c50 =
     \<lparr>weight_lb = wt, speeds_kias = sp,
      ground_roll_ft = [[Some r0, Some r0], [Some r2000, Some r2000]],
      to_clear_50ft_ft = c50\<rparr>"

definition full4 :: "real \<Rightarrow> real \<Rightarrow> real \<Rightarrow> real \<Rightarrow> cells" where
  "full4 a b c d = [[Some a, Some b], [Some c, Some d]]"

definition toy_table :: "pa_entry \<Rightarrow> WeightTable list \<Rightarrow> DataSchema" where
  "toy_table e rows =
     \<lparr>grid = \<lparr>pressure_altitudes_ft = [e, Ft 2000], temperatures_c = [0, 20], weights = rows\<rparr>\<rparr>"

text \<open>One completion of it, with the rows stored heaviest first.\<close>

definition row900 :: WeightTable where
  "row900 = toy_row 900 \<lparr>liftoff = 50, at_50ft = 55\<rparr> 500 600 (full4 945 945 1100 1100)"

definition row1000 :: WeightTable where
  "row1000 = toy_row 1000 \<lparr>liftoff = 52, at_50ft = 58\<rparr> 550 660 (full4 1000 1000 1200 1200)"

definition toy :: DataSchema where
  "toy = toy_table SL [row1000, row900]"

text \<open>The same table with one ground-roll cell of the 1000 lb row missing (2000 ft, 20 degrees).\<close>

definition row1000_gap :: WeightTable where
  "row1000_gap = row1000\<lparr>ground_roll_ft := [[Some 550, Some 550], [Some 660, None]]\<rparr>"

definition toy_gap :: DataSchema where
  "toy_gap = toy_table SL [row900, row1000_gap]"

text \<open>A table with a single altitude, which the invariants allow.\<close>

definition one_altitude :: DataSchema where
  "one_altitude =
     \<lparr>grid = \<lparr>pressure_altitudes_ft = [SL], temperatures_c = [0, 20],
       weights =
         [\<lparr>weight_lb = 900, speeds_kias = \<lparr>liftoff = 50, at_50ft = 55\<rparr>,
           ground_roll_ft = [[Some 500, Some 500]], to_clear_50ft_ft = [[Some 945, Some 945]]\<rparr>,
          \<lparr>weight_lb = 1000, speeds_kias = \<lparr>liftoff = 52, at_50ft = 58\<rparr>,
           ground_roll_ft = [[Some 550, Some 550]], to_clear_50ft_ft = [[Some 1000, Some 1000]]\<rparr>]\<rparr>\<rparr>"

text \<open>The same table with the first ground-roll cell of the 900 lb row missing.\<close>

definition one_altitude_gap :: DataSchema where
  "one_altitude_gap =
     \<lparr>grid = \<lparr>pressure_altitudes_ft = [SL], temperatures_c = [0, 20],
       weights =
         [\<lparr>weight_lb = 900, speeds_kias = \<lparr>liftoff = 50, at_50ft = 55\<rparr>,
           ground_roll_ft = [[None, Some 500]], to_clear_50ft_ft = [[Some 945, Some 945]]\<rparr>,
          \<lparr>weight_lb = 1000, speeds_kias = \<lparr>liftoff = 52, at_50ft = 58\<rparr>,
           ground_roll_ft = [[Some 550, Some 550]], to_clear_50ft_ft = [[Some 1000, Some 1000]]\<rparr>]\<rparr>\<rparr>"

text \<open>Two rows of the same weight, which the data model excludes and the type allows.\<close>

definition twin_a :: WeightTable where
  "twin_a = toy_row 1000 \<lparr>liftoff = 50, at_50ft = 55\<rparr> 500 600 (full4 945 945 1100 1100)"

definition twin_b :: WeightTable where
  "twin_b = row1000_gap"

definition twins :: "WeightTable list \<Rightarrow> DataSchema" where
  "twins rows = toy_table SL rows"


section \<open>The loop of clampIndex, and the loops of weightInterp\<close>

lemma scan_step: "i + 1 < length axis \<Longrightarrow> x > axis ! (i + 1) \<Longrightarrow> scan x axis i = scan x axis (i + 1)"
  by (subst scan.simps) simp

lemma scan_stop: "\<not> (i + 1 < length axis \<and> x > axis ! (i + 1)) \<Longrightarrow> scan x axis i = i"
  by (subst scan.simps) auto


lemma scan_in_range:
  "x \<le> axis ! (length axis - 1) \<Longrightarrow> i + 1 < length axis \<Longrightarrow> scan x axis i + 1 < length axis"
proof (induction x axis i rule: scan.induct)
  case (1 x axis i)
  show ?case
  proof (cases "i + 1 < length axis \<and> x > axis ! (i + 1)")
    case True
    then have eq: "scan x axis i = scan x axis (i + 1)" by (simp add: scan_step)
    have "i + 1 \<noteq> length axis - 1" using True "1.prems"(1) by auto
    then have "i + 1 + 1 < length axis" using True by linarith
    with 1 True eq show ?thesis by simp
  next
    case False
    then show ?thesis using "1.prems" by (simp add: scan_stop)
  qed
qed



lemma clampIndex_rows:
  assumes "clampIndex x axis = Some i" and "2 \<le> length axis"
  shows "i + 1 < length axis"
proof -
  from assms have ne: "axis \<noteq> []" by auto
  with assms(1) have le: "x \<le> axis ! (length axis - 1)" and i: "i = scan x axis 0"
    by (auto simp: clampIndex_def split: if_splits)
  from scan_in_range [OF le, of 0] assms(2) i show ?thesis by simp
qed


lemma mapE_Inr: "(\<And>x. x \<in> set xs \<Longrightarrow> f x = Inr (g x)) \<Longrightarrow> mapE f xs = Inr (map g xs)"
  by (induction xs) auto

lemma mapE_length: "mapE f xs = Inr ys \<Longrightarrow> length ys = length xs"
  by (induction xs arbitrary: ys) (auto split: sum.splits)

lemma mapE_nth: "mapE f xs = Inr ys \<Longrightarrow> i < length xs \<Longrightarrow> f (xs ! i) = Inr (ys ! i)"
proof (induction xs arbitrary: ys i)
  case Nil
  then show ?case by simp
next
  case (Cons x xs)
  then show ?case by (cases i) (auto split: sum.splits)
qed

lemma weight_frac_Fin: "weight_frac w lw uw = Fin ((w - lw) / or1 (uw - lw))"
  by (simp add: weight_frac_def or1_def Let_def)

lemma weightInterp_length:
  assumes "weightInterp w lw lgrid uw ugrid = Inr g"
  shows "length g = length lgrid"
  using assms by (auto simp: weightInterp_def Let_def split: list.splits dest: mapE_length)

lemma weightInterp_cell:
  assumes ok: "weightInterp w lw lgrid uw ugrid = Inr g"
    and i: "i < length lgrid"
  shows "cell (g ! i) j =
           (if j < length (hd lgrid)
            then blend (cell (lgrid ! i) j) (cell (ugrid ! i) j) (weight_frac w lw uw)
            else None)"
proof -
  from ok obtain r0 rest where lg: "lgrid = r0 # rest"
    by (auto simp: weightInterp_def split: list.splits)
  let ?t = "weight_frac w lw uw"
  from ok lg have m: "mapE (\<lambda>i. mapE (\<lambda>j. blend_at lgrid ugrid ?t i j) [0..<length r0]) [0..<length lgrid] = Inr g"
    by (simp add: weightInterp_def Let_def)
  from mapE_nth [OF m, of i] i
  have row: "mapE (\<lambda>j. blend_at lgrid ugrid ?t i j) [0..<length r0] = Inr (g ! i)" by simp
  have len: "length (g ! i) = length r0" using mapE_length [OF row] by simp
  show ?thesis
  proof (cases "j < length r0")
    case True
    from mapE_nth [OF row, of j] True have b: "blend_at lgrid ugrid ?t i j = Inr (g ! i ! j)" by simp
    then have "i < length ugrid" using i by (auto simp: blend_at_def pick_def split: if_splits sum.splits)
    with b i True len lg show ?thesis
      by (auto simp: blend_at_def pick_def cell_def split: if_splits sum.splits)
  next
    case False
    with len lg show ?thesis by (simp add: cell_def)
  qed
qed

lemma weightInterp_ok:
  assumes "lgrid \<noteq> []" and "length lgrid \<le> length ugrid"
  shows "\<exists>g. weightInterp w lw lgrid uw ugrid = Inr g"
proof -
  from assms(1) obtain r0 rest where lg: "lgrid = r0 # rest" by (cases lgrid) auto
  let ?t = "weight_frac w lw uw"
  have "\<And>i j. i \<in> set [0..<length lgrid] \<Longrightarrow>
     blend_at lgrid ugrid ?t i j = Inr (blend (cell (lgrid ! i) j) (cell (ugrid ! i) j) ?t)"
    using assms(2) by (auto simp: blend_at_def pick_def)
  then have "\<And>i. i \<in> set [0..<length lgrid] \<Longrightarrow>
     mapE (\<lambda>j. blend_at lgrid ugrid ?t i j) [0..<length r0]
       = Inr (map (\<lambda>j. blend (cell (lgrid ! i) j) (cell (ugrid ! i) j) ?t) [0..<length r0])"
    by (intro mapE_Inr) simp
  from mapE_Inr [of "[0..<length lgrid]", OF this] lg show ?thesis
    by (simp add: weightInterp_def Let_def)
qed

section \<open>The toy scenario\<close>

lemmas engine_defs =
  calculate_def weightsSorted_def bracket_def weightInterp_def blend_at_def pick_def cell_def
  blend_def or1_def weight_frac_def lerp_def Let_def bilinear_def clampIndex_def scan.simps
  axis_frac_def
  finish_def apply_wind_def apply_grass_def math_round_def

lemmas table_defs = toy_table_def toy_row_def full4_def req_def

text \<open>
  C8. On the two-row table (weights 900 and 1000 lb, altitudes 0 and 2000 ft, temperatures 0
  and 20, ground roll 500 and 600 at 900 lb, 550 and 660 at 1000 lb), whatever its speeds and
  its clear-50 cells and whether the first altitude is stored as 0 or as sea level, the
  request of 950 lb at 0 ft, 0 degrees, no wind, hard surface gets the ground roll 525 and
  no note.
\<close>

theorem C8_toy_scenario:
  "calculate (toy_table (Ft 0) [toy_row 900 s1 500 600 (full4 a b c d),
                               toy_row 1000 s2 550 660 (full4 a' b' c' d')])
             (req 950 0 0 0 False)
     = Inr \<lparr>groundRollFt = Some (Fin 525),
            toClear50Ft = Some (Fin (math_round (lerp a a' (1 / 2)))),
            liftoffKIAS = Some (Fin (math_round (lerp (liftoff s1) (liftoff s2) (1 / 2)))),
            at50ftKIAS = Some (Fin (math_round (lerp (at_50ft s1) (at_50ft s2) (1 / 2)))),
            out_notes = []\<rparr>
   \<and> calculate (toy_table SL [toy_row 900 s1 500 600 (full4 a b c d),
                            toy_row 1000 s2 550 660 (full4 a' b' c' d')])
             (req 950 0 0 0 False)
     = Inr \<lparr>groundRollFt = Some (Fin 525),
            toClear50Ft = Some (Fin (math_round (lerp a a' (1 / 2)))),
            liftoffKIAS = Some (Fin (math_round (lerp (liftoff s1) (liftoff s2) (1 / 2)))),
            at50ftKIAS = Some (Fin (math_round (lerp (at_50ft s1) (at_50ft s2) (1 / 2)))),
            out_notes = []\<rparr>"
  by (simp add: engine_defs table_defs)

section \<open>Weight validation\<close>

lemma sorted_hd_Min:
  fixes ks :: "real list"
  assumes "sorted ks" and "ks \<noteq> []"
  shows "hd ks = Min (set ks)"
proof -
  from assms(2) obtain k rest where ks: "ks = k # rest" by (cases ks) auto
  with assms(1) have "\<And>y. y \<in> set ks \<Longrightarrow> k \<le> y" by auto
  then have "Min (set ks) = k" using ks by (intro Min_eqI) auto
  with ks show ?thesis by simp
qed

lemma sorted_last_Max:
  fixes ks :: "real list"
  assumes "sorted ks" and "ks \<noteq> []"
  shows "last ks = Max (set ks)"
proof -
  have "\<And>y. y \<in> set ks \<Longrightarrow> y \<le> last ks" using assms(1) by (induction ks) auto
  then have "Max (set ks) = last ks" using assms(2) by (intro Max_eqI) auto
  then show ?thesis by simp
qed

lemma wMin_is_Min:
  assumes "weights (grid data) \<noteq> []"
  shows "weight_lb (hd (weightsSorted data)) = Min (weight_lb ` set (weights (grid data)))"
proof -
  let ?s = "weightsSorted data"
  have ne: "?s \<noteq> []" using assms by (metis length_sort weightsSorted_def length_0_conv)
  have "sorted (map weight_lb ?s)" by (simp add: weightsSorted_def)
  from sorted_hd_Min [OF this] ne show ?thesis
    by (simp add: hd_map weightsSorted_def)
qed

lemma wMax_is_Max:
  assumes "weights (grid data) \<noteq> []"
  shows "weight_lb (last (weightsSorted data)) = Max (weight_lb ` set (weights (grid data)))"
proof -
  let ?s = "weightsSorted data"
  have ne: "?s \<noteq> []" using assms by (metis length_sort weightsSorted_def length_0_conv)
  have "sorted (map weight_lb ?s)" by (simp add: weightsSorted_def)
  from sorted_last_Max [OF this] ne show ?thesis
    by (simp add: last_map weightsSorted_def)
qed

lemma weightsSorted_Nil: "weightsSorted data = [] \<longleftrightarrow> weights (grid data) = []"
  by (metis length_sort weightsSorted_def length_0_conv)

lemma sublist_mid: "s = p @ m @ q \<Longrightarrow> sublist m s"
  by (auto simp: sublist_def)

text \<open>
  C2. On a table with at least one weight row, a request whose weight is below the smallest
  or above the largest table weight gets a result with the two distances and the two speeds
  absent and exactly one note, the one built from the requested weight and the smallest and
  the largest table weight. On the two-row table of 900 and 1000 lb, a request of 1200 lb
  gets the note "Weight 1200 lb outside table range 900-1000 lb.", which mentions 900 and
  1000.
\<close>

theorem C2_weight_out_of_range:
  assumes ne: "weights (grid data) \<noteq> []"
    and out: "weightLb inp < Min (weight_lb ` set (weights (grid data)))
              \<or> weightLb inp > Max (weight_lb ` set (weights (grid data)))"
  shows "calculate data inp =
           Inr \<lparr>groundRollFt = None, toClear50Ft = None, liftoffKIAS = None, at50ftKIAS = None,
                out_notes = [weight_note (weightLb inp)
                               (Min (weight_lb ` set (weights (grid data))))
                               (Max (weight_lb ` set (weights (grid data))))]\<rparr>
         \<and> NumStr (Min (weight_lb ` set (weights (grid data))))
               \<in> set (weight_note (weightLb inp)
                               (Min (weight_lb ` set (weights (grid data))))
                               (Max (weight_lb ` set (weights (grid data)))))
         \<and> NumStr (Max (weight_lb ` set (weights (grid data))))
               \<in> set (weight_note (weightLb inp)
                               (Min (weight_lb ` set (weights (grid data))))
                               (Max (weight_lb ` set (weights (grid data)))))
         \<and> calculate (toy_table e [toy_row 900 s1 500 600 c1, toy_row 1000 s2 550 660 c2])
                       (req 1200 pa oat wind g)
             = Inr \<lparr>groundRollFt = None, toClear50Ft = None, liftoffKIAS = None,
                    at50ftKIAS = None, out_notes = [weight_note 1200 900 1000]\<rparr>
         \<and> render (weight_note 1200 900 1000)
             = Some ''Weight 1200 lb outside table range 900-1000 lb.''
         \<and> sublist ''900'' ''Weight 1200 lb outside table range 900-1000 lb.''
         \<and> sublist ''1000'' ''Weight 1200 lb outside table range 900-1000 lb.''"
proof -
  have general: "calculate data inp =
           Inr \<lparr>groundRollFt = None, toClear50Ft = None, liftoffKIAS = None, at50ftKIAS = None,
                out_notes = [weight_note (weightLb inp)
                               (Min (weight_lb ` set (weights (grid data))))
                               (Max (weight_lb ` set (weights (grid data))))]\<rparr>"
    using ne out wMin_is_Min [OF ne] wMax_is_Max [OF ne]
    by (simp add: calculate_def Let_def weightsSorted_Nil)
  have toy: "calculate (toy_table e [toy_row 900 s1 500 600 c1, toy_row 1000 s2 550 660 c2])
                       (req 1200 pa oat wind g)
             = Inr \<lparr>groundRollFt = None, toClear50Ft = None, liftoffKIAS = None,
                    at50ftKIAS = None, out_notes = [weight_note 1200 900 1000]\<rparr>"
    by (simp add: calculate_def Let_def weightsSorted_def table_defs)
  have rendered: "render (weight_note 1200 900 1000)
             = Some ''Weight 1200 lb outside table range 900-1000 lb.''"
    by (simp add: render_def weight_note_def show_nat.simps digit_def sign_str_def)
  have s1: "sublist ''900'' ''Weight 1200 lb outside table range 900-1000 lb.''"
    by (rule sublist_mid [of _ "''Weight 1200 lb outside table range ''" _ "''-1000 lb.''"]) simp
  have s2: "sublist ''1000'' ''Weight 1200 lb outside table range 900-1000 lb.''"
    by (rule sublist_mid [of _ "''Weight 1200 lb outside table range 900-''" _ "'' lb.''"]) simp
  from general toy rendered s1 s2 show ?thesis by (simp add: weight_note_def)
qed

theorem C2_weight_out_of_range_witness:
  "weights (grid toy) \<noteq> []
   \<and> weightLb (req 1200 0 15 0 False) > Max (weight_lb ` set (weights (grid toy)))
   \<and> calculate toy (req 1200 0 15 0 False) =
           Inr \<lparr>groundRollFt = None, toClear50Ft = None, liftoffKIAS = None, at50ftKIAS = None,
                out_notes = [weight_note 1200 900 1000]\<rparr>"
  using C2_weight_out_of_range [of toy "req 1200 0 15 0 False"]
  by (simp add: toy_def row900_def row1000_def table_defs)

section \<open>The lookup\<close>

lemma clampIndex_above:
  assumes "axis \<noteq> []" and "last axis < x"
  shows "clampIndex x axis = None"
  using assms by (simp add: clampIndex_def last_conv_nth)

lemma bilinear_above:
  assumes "xs \<noteq> []" and "last xs < x"
  shows "bilinear x y xs ys g = Inr None"
  using clampIndex_above [OF assms] by (simp add: bilinear_def)

lemma bilinear_no_fault:
  assumes "\<And>i. clampIndex x xs = Some i \<Longrightarrow> i + 1 < length g"
  shows "\<exists>r. bilinear x y xs ys g = Inr r"
proof (cases "clampIndex x xs")
  case None
  then show ?thesis by (simp add: bilinear_def)
next
  case (Some i)
  with assms have "i + 1 < length g" by simp
  with Some show ?thesis
    by (auto simp: bilinear_def pick_def Let_def split: option.splits num.splits)
qed

lemma bilinear_corner:
  assumes i: "clampIndex x xs = Some i" and j: "clampIndex y ys = Some j"
    and rows: "i + 1 < length g"
    and gap: "cell (g ! i) j = None \<or> cell (g ! i) (j + 1) = None
              \<or> cell (g ! (i + 1)) j = None \<or> cell (g ! (i + 1)) (j + 1) = None"
  shows "bilinear x y xs ys g = Inr None"
  using assms by (auto simp: bilinear_def pick_def split: option.splits)

section \<open>The bracketing loop\<close>

lemma bracket_scan_Some:
  "bracket_scan w ws = Some (a, b) \<Longrightarrow>
     a \<in> set ws \<and> b \<in> set ws \<and> weight_lb a \<le> w \<and> w \<le> weight_lb b"
  by (induction w ws rule: bracket_scan.induct) (auto split: if_splits)

lemma bracket_members:
  assumes "ws \<noteq> []" and "bracket w ws = (lower, upper)"
  shows "lower \<in> set ws \<and> upper \<in> set ws"
  using assms by (auto simp: bracket_def split: option.splits dest: bracket_scan_Some)

lemma bracket_encloses:
  assumes "ws \<noteq> []" and "weight_lb (hd ws) \<le> w" and "w \<le> weight_lb (last ws)"
    and "bracket w ws = (lower, upper)"
  shows "weight_lb lower \<le> w \<and> w \<le> weight_lb upper"
  using assms by (auto simp: bracket_def split: option.splits dest: bracket_scan_Some)

section \<open>The path of an in-range request\<close>

lemma finish_pa: "finish (inp\<lparr>pressureAltitudeFt := p\<rparr>) r v = finish inp r v"
  by (simp add: finish_def)

lemma weightsSorted_set: "set (weightsSorted data) = set (weights (grid data))"
  by (simp add: weightsSorted_def)

text \<open>The path of an in-range request, once the bracket and the two blended grids are known.\<close>

lemma calculate_in_range:
  assumes ne: "weightsSorted data \<noteq> []"
    and lo: "weight_lb (hd (weightsSorted data)) \<le> weightLb inp"
    and hi: "weightLb inp \<le> weight_lb (last (weightsSorted data))"
    and br: "bracket (weightLb inp) (weightsSorted data) = (lower, upper)"
    and rg: "weightInterp (weightLb inp) (weight_lb lower) (ground_roll_ft lower)
               (weight_lb upper) (ground_roll_ft upper) = Inr rollGrid"
    and og: "weightInterp (weightLb inp) (weight_lb lower) (to_clear_50ft_ft lower)
               (weight_lb upper) (to_clear_50ft_ft upper) = Inr over50Grid"
    and r: "bilinear pa (oatC inp) (map normalizePA (pressure_altitudes_ft (grid data)))
               (temperatures_c (grid data)) rollGrid = Inr roll"
    and v: "bilinear pa (oatC inp) (map normalizePA (pressure_altitudes_ft (grid data)))
               (temperatures_c (grid data)) over50Grid = Inr over50"
    and pa: "pa = (if pressure_altitudes_ft (grid data) \<noteq> []
                    \<and> pressureAltitudeFt inp < normalizePA (hd (pressure_altitudes_ft (grid data)))
                   then normalizePA (hd (pressure_altitudes_ft (grid data)))
                   else pressureAltitudeFt inp)"
    and ns: "ns = (if pressure_altitudes_ft (grid data) \<noteq> []
                    \<and> pressureAltitudeFt inp < normalizePA (hd (pressure_altitudes_ft (grid data)))
                   then [clamp_note (pressureAltitudeFt inp)] else [])"
    and tw: "tw = (weightLb inp - weight_lb lower) / or1 (weight_lb upper - weight_lb lower)"
  shows "calculate data inp =
           (case (roll, over50) of
              (Some roll0, Some over0) \<Rightarrow>
                Inr \<lparr>groundRollFt = Some (fst (finish inp roll0 over0)),
                     toClear50Ft = Some (snd (finish inp roll0 over0)),
                     liftoffKIAS = Some (Fin (math_round (lerp (liftoff (speeds_kias lower)) (liftoff (speeds_kias upper)) tw))),
                     at50ftKIAS = Some (Fin (math_round (lerp (at_50ft (speeds_kias lower)) (at_50ft (speeds_kias upper)) tw))),
                     out_notes = ns\<rparr>
            | _ \<Rightarrow>
                Inr \<lparr>groundRollFt = None, toClear50Ft = None,
                     liftoffKIAS = Some (Fin (math_round (lerp (liftoff (speeds_kias lower)) (liftoff (speeds_kias upper)) tw))),
                     at50ftKIAS = Some (Fin (math_round (lerp (at_50ft (speeds_kias lower)) (at_50ft (speeds_kias upper)) tw))),
                     out_notes = extrapolation_note # ns\<rparr>)"
  using ne lo hi br rg og r v unfolding pa ns tw
  by (auto simp: calculate_def Let_def hd_conv_nth weight_frac_Fin split: option.splits prod.splits)

lemma clamp_law:
  assumes ne: "weightsSorted data \<noteq> []"
    and lo: "weight_lb (hd (weightsSorted data)) \<le> weightLb inp"
    and hi: "weightLb inp \<le> weight_lb (last (weightsSorted data))"
    and xs: "pressure_altitudes_ft (grid data) \<noteq> []"
    and below: "pressureAltitudeFt inp < normalizePA (hd (pressure_altitudes_ft (grid data)))"
  shows "calculate data inp =
           with_note (clamp_note (pressureAltitudeFt inp))
             (calculate data (inp\<lparr>pressureAltitudeFt := normalizePA (hd (pressure_altitudes_ft (grid data)))\<rparr>))"
  using assms
  by (auto simp: calculate_def Let_def with_note_def hd_conv_nth finish_pa split: sum.splits option.splits prod.splits)


section \<open>Altitude clamping and the order of the notes\<close>

lemmas toy_defs = toy_def row900_def row1000_def table_defs

lemma table_inv_parts:
  assumes "table_inv data"
  shows "weights (grid data) \<noteq> []"
    and "pressure_altitudes_ft (grid data) \<noteq> []"
    and "sorted (map normalizePA (pressure_altitudes_ft (grid data)))"
    and "\<And>r. r \<in> set (weights (grid data)) \<Longrightarrow>
           length (ground_roll_ft r) = length (pressure_altitudes_ft (grid data))
           \<and> length (to_clear_50ft_ft r) = length (pressure_altitudes_ft (grid data))"
  using assms
  by (auto simp: table_inv_def Let_def dims_ok_def list_all_iff strict_sorted_iff)

text \<open>
  C1, as stated, fails: on the two-row table the request of 950 lb at -500 ft and 50 degrees
  (in-range weight, altitude below the table, temperature off the axis) gets two notes, but
  the extrapolation note comes first and the clamp note second.
\<close>

theorem C1_counterexample:
  "table_inv toy
   \<and> Min (weight_lb ` set (weights (grid toy))) \<le> weightLb (req 950 (- 500) 50 0 False)
   \<and> weightLb (req 950 (- 500) 50 0 False) \<le> Max (weight_lb ` set (weights (grid toy)))
   \<and> pressureAltitudeFt (req 950 (- 500) 50 0 False)
        < Min (set (map normalizePA (pressure_altitudes_ft (grid toy))))
   \<and> calculate toy (req 950 (- 500) 50 0 False)
       = Inr \<lparr>groundRollFt = None, toClear50Ft = None, liftoffKIAS = Some (Fin 51),
              at50ftKIAS = Some (Fin 57),
              out_notes = [extrapolation_note, clamp_note (- 500)]\<rparr>
   \<and> [extrapolation_note, clamp_note (- 500)] \<noteq> [clamp_note (- 500), extrapolation_note]"
  by (simp add: engine_defs toy_defs table_inv_def dims_ok_def extrapolation_note_def clamp_note_def)

text \<open>
  C1, amended. For every table that satisfies the data-model invariants and every request
  whose weight lies within the table weights and whose pressure altitude is below the table
  minimum: when calculate returns with the ground roll absent (the lookup at the clamped
  point failed), the clear-50 distance is absent too and the notes are exactly two, the
  extrapolation note first and the altitude-clamp note second.
\<close>

theorem C1_notes_order:
  assumes inv: "table_inv data"
    and lo: "Min (weight_lb ` set (weights (grid data))) \<le> weightLb inp"
    and hi: "weightLb inp \<le> Max (weight_lb ` set (weights (grid data)))"
    and below: "pressureAltitudeFt inp
                  < Min (set (map normalizePA (pressure_altitudes_ft (grid data))))"
    and ret: "calculate data inp = Inr out"
    and fail: "groundRollFt out = None"
  shows "out_notes out = [extrapolation_note, clamp_note (pressureAltitudeFt inp)]
         \<and> toClear50Ft out = None"
proof -
  note p = table_inv_parts [OF inv]
  let ?xs = "map normalizePA (pressure_altitudes_ft (grid data))"
  have xne: "?xs \<noteq> []" using p(2) by simp
  have sne: "weightsSorted data \<noteq> []" using p(1) by (simp add: weightsSorted_Nil)
  have lo': "weight_lb (hd (weightsSorted data)) \<le> weightLb inp"
    using lo wMin_is_Min [OF p(1)] by simp
  have hi': "weightLb inp \<le> weight_lb (last (weightsSorted data))"
    using hi wMax_is_Max [OF p(1)] by simp
  have "Min (set ?xs) = normalizePA (hd (pressure_altitudes_ft (grid data)))"
    using sorted_hd_Min [OF p(3) xne] p(2) by (simp add: hd_map)
  with below have cl: "pressureAltitudeFt inp < normalizePA (pressure_altitudes_ft (grid data) ! 0)"
    using p(2) by (simp add: hd_conv_nth)
  from ret fail sne lo' hi' cl p(2) show ?thesis
    by (auto simp: calculate_def Let_def split: sum.splits option.splits prod.splits if_splits)
qed

theorem C1_notes_order_witness:
  "table_inv toy
   \<and> Min (weight_lb ` set (weights (grid toy))) \<le> weightLb (req 950 (- 500) 50 0 False)
   \<and> weightLb (req 950 (- 500) 50 0 False) \<le> Max (weight_lb ` set (weights (grid toy)))
   \<and> pressureAltitudeFt (req 950 (- 500) 50 0 False)
        < Min (set (map normalizePA (pressure_altitudes_ft (grid toy))))
   \<and> calculate toy (req 950 (- 500) 50 0 False)
       = Inr \<lparr>groundRollFt = None, toClear50Ft = None, liftoffKIAS = Some (Fin 51),
              at50ftKIAS = Some (Fin 57),
              out_notes = [extrapolation_note, clamp_note (- 500)]\<rparr>"
proof -
  let ?r = "req 950 (- 500) 50 0 False"
  let ?out = "\<lparr>groundRollFt = None, toClear50Ft = None, liftoffKIAS = Some (Fin 51),
              at50ftKIAS = Some (Fin 57),
              out_notes = [extrapolation_note, clamp_note (- 500)]\<rparr>"
  have inv: "table_inv toy" by (simp add: table_inv_def toy_defs dims_ok_def)
  have lo: "Min (weight_lb ` set (weights (grid toy))) \<le> weightLb ?r" by (simp add: toy_defs)
  have hi: "weightLb ?r \<le> Max (weight_lb ` set (weights (grid toy)))" by (simp add: toy_defs)
  have below: "pressureAltitudeFt ?r < Min (set (map normalizePA (pressure_altitudes_ft (grid toy))))"
    by (simp add: toy_defs)
  have ret: "calculate toy ?r = Inr ?out" by (simp add: engine_defs toy_defs)
  have fail: "groundRollFt ?out = None" by simp
  from C1_notes_order [OF inv lo hi below ret fail] inv lo hi below ret show ?thesis by simp
qed

text \<open>
  C4, as stated, fails: a request below the table minimum whose weight is out of range is
  rejected before the altitude is looked at, so its result equals that of the request at the
  table minimum and carries no clamp note.
\<close>

theorem C4_counterexample:
  "pressureAltitudeFt (req 1200 (- 500) 0 0 False) < Min (set (map normalizePA (pressure_altitudes_ft (grid toy))))
   \<and> calculate toy (req 1200 (- 500) 0 0 False)
       = Inr \<lparr>groundRollFt = None, toClear50Ft = None, liftoffKIAS = None, at50ftKIAS = None,
              out_notes = [weight_note 1200 900 1000]\<rparr>
   \<and> calculate toy (req 1200 0 0 0 False) = calculate toy (req 1200 (- 500) 0 0 False)"
  by (simp add: calculate_def Let_def weightsSorted_def toy_def row900_def row1000_def table_defs)

text \<open>
  C4, amended. For every table with at least one weight row and a non-empty increasing
  altitude axis, and every request whose weight lies within the table weights: if the
  pressure altitude is below the table minimum, the result is the result of the same
  request at the table minimum with one clamp note added at the end of the notes (a fault
  stays a fault); if the pressure altitude is above the table maximum, nothing is clamped:
  whenever calculate returns, both distances are absent and the only note is the
  extrapolation note.
\<close>

theorem C4_clamp_law:
  assumes ne: "weights (grid data) \<noteq> []"
    and lo: "Min (weight_lb ` set (weights (grid data))) \<le> weightLb inp"
    and hi: "weightLb inp \<le> Max (weight_lb ` set (weights (grid data)))"
    and xs: "xs = map normalizePA (pressure_altitudes_ft (grid data))"
    and xne: "xs \<noteq> []"
    and inc: "sorted xs"
  shows "(pressureAltitudeFt inp < Min (set xs) \<longrightarrow>
            calculate data inp =
              with_note (clamp_note (pressureAltitudeFt inp))
                (calculate data (inp\<lparr>pressureAltitudeFt := Min (set xs)\<rparr>)))
       \<and> (Max (set xs) < pressureAltitudeFt inp \<longrightarrow>
            (\<forall>out. calculate data inp = Inr out \<longrightarrow>
               groundRollFt out = None \<and> toClear50Ft out = None
               \<and> out_notes out = [extrapolation_note]))"
proof -
  have sne: "weightsSorted data \<noteq> []" using ne by (simp add: weightsSorted_Nil)
  have lo': "weight_lb (hd (weightsSorted data)) \<le> weightLb inp"
    using lo wMin_is_Min [OF ne] by simp
  have hi': "weightLb inp \<le> weight_lb (last (weightsSorted data))"
    using hi wMax_is_Max [OF ne] by simp
  have pne: "pressure_altitudes_ft (grid data) \<noteq> []" using xs xne by auto
  have mn: "Min (set xs) = normalizePA (hd (pressure_altitudes_ft (grid data)))"
    using sorted_hd_Min [OF inc xne] pne by (simp add: xs hd_map)
  have mx: "Max (set xs) = last xs" using sorted_last_Max [OF inc xne] by simp
  have low: "calculate data inp =
              with_note (clamp_note (pressureAltitudeFt inp))
                (calculate data (inp\<lparr>pressureAltitudeFt := Min (set xs)\<rparr>))"
    if "pressureAltitudeFt inp < Min (set xs)"
    using clamp_law [OF sne lo' hi' pne] that by (simp add: mn)
  have high: "groundRollFt out = None \<and> toClear50Ft out = None \<and> out_notes out = [extrapolation_note]"
    if above: "Max (set xs) < pressureAltitudeFt inp" and ret: "calculate data inp = Inr out" for out
  proof -
    have "hd xs \<le> last xs" using sorted_hd_Min [OF inc xne] mx xne by simp
    then have nocl: "\<not> pressureAltitudeFt inp < normalizePA (hd (pressure_altitudes_ft (grid data)))"
      using above mx mn sorted_hd_Min [OF inc xne] by simp
    have b: "bilinear (pressureAltitudeFt inp) y xs ys g = Inr None" for y ys g
      using bilinear_above [OF xne] above mx by simp
    obtain lower upper where br: "bracket (weightLb inp) (weightsSorted data) = (lower, upper)"
      by (cases "bracket (weightLb inp) (weightsSorted data)") auto
    from ret sne lo' hi' br nocl show ?thesis
      by (auto simp: calculate_def Let_def b [unfolded xs] hd_conv_nth split: sum.splits if_splits)
  qed
  from low high show ?thesis by blast
qed

theorem C4_clamp_law_witness:
  "weights (grid toy) \<noteq> []
   \<and> Min (weight_lb ` set (weights (grid toy))) \<le> 950
   \<and> 950 \<le> Max (weight_lb ` set (weights (grid toy)))
   \<and> sorted (map normalizePA (pressure_altitudes_ft (grid toy)))
   \<and> - 500 < Min (set (map normalizePA (pressure_altitudes_ft (grid toy))))
   \<and> calculate toy (req 950 (- 500) 0 0 False)
       = with_note (clamp_note (- 500)) (calculate toy (req 950 0 0 0 False))
   \<and> Max (set (map normalizePA (pressure_altitudes_ft (grid toy)))) < 3000
   \<and> calculate toy (req 950 3000 0 0 False)
       = Inr \<lparr>groundRollFt = None, toClear50Ft = None, liftoffKIAS = Some (Fin 51),
              at50ftKIAS = Some (Fin 57), out_notes = [extrapolation_note]\<rparr>"
proof -
  let ?xs = "map normalizePA (pressure_altitudes_ft (grid toy))"
  have ne: "weights (grid toy) \<noteq> []" by (simp add: toy_defs)
  have lo: "Min (weight_lb ` set (weights (grid toy))) \<le> weightLb (req 950 pa 0 0 False)" for pa
    by (simp add: toy_defs)
  have hi: "weightLb (req 950 pa 0 0 False) \<le> Max (weight_lb ` set (weights (grid toy)))" for pa
    by (simp add: toy_defs)
  have xne: "?xs \<noteq> []" by (simp add: toy_defs)
  have inc: "sorted ?xs" by (simp add: toy_defs)
  have mn: "Min (set ?xs) = 0" and mx: "Max (set ?xs) = 2000" by (simp_all add: toy_defs)
  have low: "calculate toy (req 950 (- 500) 0 0 False)
       = with_note (clamp_note (- 500)) (calculate toy (req 950 0 0 0 False))"
    using C4_clamp_law [OF ne lo hi refl xne inc, of "- 500"] mn by (simp add: req_def)
  have val: "calculate toy (req 950 3000 0 0 False)
       = Inr \<lparr>groundRollFt = None, toClear50Ft = None, liftoffKIAS = Some (Fin 51),
              at50ftKIAS = Some (Fin 57), out_notes = [extrapolation_note]\<rparr>"
    by (simp add: engine_defs toy_defs)
  have "groundRollFt out = None \<and> toClear50Ft out = None \<and> out_notes out = [extrapolation_note]"
    if "calculate toy (req 950 3000 0 0 False) = Inr out" for out
    using C4_clamp_law [OF ne lo hi refl xne inc, of 3000] that mx by (simp add: req_def)
  with ne lo [of 0] hi [of 0] inc mn mx low val show ?thesis by (simp add: req_def)
qed


section \<open>No thrown fault\<close>

text \<open>
  C7, as stated, fails: a table with a single altitude satisfies the data-model invariants
  (two distinct weights, non-empty increasing axes, grids of the dimensions of the axes),
  and a request at that altitude with a temperature on the axis makes the lookup read the
  row after the last one, which throws.
\<close>

theorem C7_counterexample:
  "table_inv one_altitude \<and> calculate one_altitude (req 950 0 10 0 False) = Inl TypeError"
  by (simp add: engine_defs one_altitude_def req_def table_inv_def dims_ok_def)

text \<open>
  C7, amended. For every table that satisfies the data-model invariants and whose altitude
  axis has at least two entries, and for every request, calculate returns a result: no
  fault is thrown.
\<close>

theorem C7_no_fault:
  assumes inv: "table_inv data"
    and two: "2 \<le> length (pressure_altitudes_ft (grid data))"
  shows "\<exists>out. calculate data inp = Inr out"
proof -
  note p = table_inv_parts [OF inv]
  let ?xs = "map normalizePA (pressure_altitudes_ft (grid data))"
  let ?ws = "weightsSorted data"
  have sne: "?ws \<noteq> []" using p(1) by (simp add: weightsSorted_Nil)
  show ?thesis
  proof (cases "weightLb inp < weight_lb (hd ?ws) \<or> weightLb inp > weight_lb (last ?ws)")
    case True
    with sne show ?thesis by (auto simp: calculate_def Let_def)
  next
    case False
    then have lo: "weight_lb (hd ?ws) \<le> weightLb inp" and hi: "weightLb inp \<le> weight_lb (last ?ws)"
      by auto
    obtain lower upper where br: "bracket (weightLb inp) ?ws = (lower, upper)"
      by (cases "bracket (weightLb inp) ?ws") auto
    from bracket_members [OF sne br] have mem: "lower \<in> set (weights (grid data))"
      "upper \<in> set (weights (grid data))" by (simp_all add: weightsSorted_set)
    note dl = p(4) [OF mem(1)] and du = p(4) [OF mem(2)]
    have "ground_roll_ft lower \<noteq> []" using dl two by auto
    moreover have "length (ground_roll_ft lower) \<le> length (ground_roll_ft upper)"
      using dl du by simp
    ultimately obtain rg where rg: "weightInterp (weightLb inp) (weight_lb lower) (ground_roll_ft lower)
               (weight_lb upper) (ground_roll_ft upper) = Inr rg"
      using weightInterp_ok by blast
    have "to_clear_50ft_ft lower \<noteq> []" using dl two by auto
    moreover have "length (to_clear_50ft_ft lower) \<le> length (to_clear_50ft_ft upper)"
      using dl du by simp
    ultimately obtain og where og: "weightInterp (weightLb inp) (weight_lb lower) (to_clear_50ft_ft lower)
               (weight_lb upper) (to_clear_50ft_ft upper) = Inr og"
      using weightInterp_ok by blast
    have lrg: "length rg = length ?xs" using weightInterp_length [OF rg] dl by simp
    have log: "length og = length ?xs" using weightInterp_length [OF og] dl by simp
    define pa where "pa = (if pressure_altitudes_ft (grid data) \<noteq> []
                    \<and> pressureAltitudeFt inp < normalizePA (hd (pressure_altitudes_ft (grid data)))
                   then normalizePA (hd (pressure_altitudes_ft (grid data)))
                   else pressureAltitudeFt inp)"
    have rows: "i + 1 < length ?xs" if "clampIndex pa ?xs = Some i" for i
      using clampIndex_rows [OF that] two by simp
    have "\<exists>r. bilinear pa (oatC inp) ?xs (temperatures_c (grid data)) rg = Inr r"
      by (rule bilinear_no_fault) (use rows lrg in simp)
    then obtain roll where r: "bilinear pa (oatC inp) ?xs (temperatures_c (grid data)) rg = Inr roll"
      by blast
    have "\<exists>r. bilinear pa (oatC inp) ?xs (temperatures_c (grid data)) og = Inr r"
      by (rule bilinear_no_fault) (use rows log in simp)
    then obtain over50 where v: "bilinear pa (oatC inp) ?xs (temperatures_c (grid data)) og = Inr over50"
      by blast
    from calculate_in_range [OF sne lo hi br rg og r v pa_def refl refl] show ?thesis
      by (auto split: option.splits)
  qed
qed

theorem C7_no_fault_witness:
  "table_inv toy \<and> 2 \<le> length (pressure_altitudes_ft (grid toy))
   \<and> calculate toy (req 950 1000 10 5 True) \<noteq> Inl TypeError"
proof -
  have inv: "table_inv toy" by (simp add: table_inv_def toy_defs dims_ok_def)
  have two: "2 \<le> length (pressure_altitudes_ft (grid toy))" by (simp add: toy_defs)
  from C7_no_fault [OF inv two, of "req 950 1000 10 5 True"] inv two show ?thesis by auto
qed

section \<open>Null propagation\<close>

text \<open>
  C3, as stated, fails: on a table with a single altitude, which satisfies the data-model
  invariants, a request at that altitude with a temperature on the axis is bracketed at the
  indices 0 and 0, and with the corner cell (0, 0) of the blended ground-roll grid absent
  the lookup still reads the row after the last one, before it tests the corners, and
  throws.
\<close>

theorem C3_counterexample:
  "table_inv one_altitude_gap
   \<and> Min (weight_lb ` set (weights (grid one_altitude_gap))) \<le> weightLb (req 950 0 10 0 False)
   \<and> weightLb (req 950 0 10 0 False) \<le> Max (weight_lb ` set (weights (grid one_altitude_gap)))
   \<and> clampIndex (pressureAltitudeFt (req 950 0 10 0 False))
         (map normalizePA (pressure_altitudes_ft (grid one_altitude_gap))) = Some 0
   \<and> clampIndex (oatC (req 950 0 10 0 False)) (temperatures_c (grid one_altitude_gap)) = Some 0
   \<and> weightInterp 950 900 [[None, Some 500]] 1000 [[Some 550, Some 550]]
       = Inr [[None, Some (Fin 525)]]
   \<and> cell ([[None, Some (Fin 525)]] ! 0) 0 = (None :: num option)
   \<and> bilinear 0 10 (map normalizePA (pressure_altitudes_ft (grid one_altitude_gap)))
         (temperatures_c (grid one_altitude_gap)) [[None, Some (Fin 525)]] = Inl TypeError
   \<and> calculate one_altitude_gap (req 950 0 10 0 False) = Inl TypeError"
  by (simp add: engine_defs one_altitude_gap_def req_def table_inv_def dims_ok_def)

text \<open>
  C3, amended. For every table that satisfies the data-model invariants and whose altitude
  axis has at least two entries, every request whose weight lies within the table weights
  and whose altitude and temperature are bracketed by their axes, at the indices i and j:
  the two blended grids of the bracketing rows exist, and if one of the four corner cells
  (i, j), (i, j + 1), (i + 1, j), (i + 1, j + 1) of one of them is absent, whatever the
  other three are, then the lookup in that grid is absent, and calculate returns with both
  distances absent, both speeds present and the extrapolation note.
\<close>

theorem C3_null_propagation:
  assumes inv: "table_inv data"
    and two: "2 \<le> length (pressure_altitudes_ft (grid data))"
    and lo: "Min (weight_lb ` set (weights (grid data))) \<le> weightLb inp"
    and hi: "weightLb inp \<le> Max (weight_lb ` set (weights (grid data)))"
    and br: "bracket (weightLb inp) (weightsSorted data) = (lower, upper)"
    and i: "clampIndex (pressureAltitudeFt inp)
              (map normalizePA (pressure_altitudes_ft (grid data))) = Some i"
    and j: "clampIndex (oatC inp) (temperatures_c (grid data)) = Some j"
  shows "\<exists>rollGrid over50Grid.
           weightInterp (weightLb inp) (weight_lb lower) (ground_roll_ft lower)
               (weight_lb upper) (ground_roll_ft upper) = Inr rollGrid
         \<and> weightInterp (weightLb inp) (weight_lb lower) (to_clear_50ft_ft lower)
               (weight_lb upper) (to_clear_50ft_ft upper) = Inr over50Grid
         \<and> (\<forall>g. (g = rollGrid \<or> g = over50Grid)
                \<and> (cell (g ! i) j = None \<or> cell (g ! i) (j + 1) = None
                    \<or> cell (g ! (i + 1)) j = None \<or> cell (g ! (i + 1)) (j + 1) = None)
              \<longrightarrow> bilinear (pressureAltitudeFt inp) (oatC inp)
                    (map normalizePA (pressure_altitudes_ft (grid data)))
                    (temperatures_c (grid data)) g = Inr None
                  \<and> calculate data inp =
                      Inr \<lparr>groundRollFt = None, toClear50Ft = None,
                           liftoffKIAS = Some (Fin (math_round (lerp (liftoff (speeds_kias lower))
                               (liftoff (speeds_kias upper))
                               ((weightLb inp - weight_lb lower) / or1 (weight_lb upper - weight_lb lower))))),
                           at50ftKIAS = Some (Fin (math_round (lerp (at_50ft (speeds_kias lower))
                               (at_50ft (speeds_kias upper))
                               ((weightLb inp - weight_lb lower) / or1 (weight_lb upper - weight_lb lower))))),
                           out_notes = [extrapolation_note]\<rparr>)"
proof -
  note p = table_inv_parts [OF inv]
  let ?xs = "map normalizePA (pressure_altitudes_ft (grid data))"
  let ?ys = "temperatures_c (grid data)"
  have sne: "weightsSorted data \<noteq> []" using p(1) by (simp add: weightsSorted_Nil)
  have lo': "weight_lb (hd (weightsSorted data)) \<le> weightLb inp"
    using lo wMin_is_Min [OF p(1)] by simp
  have hi': "weightLb inp \<le> weight_lb (last (weightsSorted data))"
    using hi wMax_is_Max [OF p(1)] by simp
  from bracket_members [OF sne br] have mem: "lower \<in> set (weights (grid data))"
    "upper \<in> set (weights (grid data))" by (simp_all add: weightsSorted_set)
  note dl = p(4) [OF mem(1)] and du = p(4) [OF mem(2)]
  have "ground_roll_ft lower \<noteq> []" using dl two by auto
  moreover have "length (ground_roll_ft lower) \<le> length (ground_roll_ft upper)"
    using dl du by simp
  ultimately obtain rg where rg: "weightInterp (weightLb inp) (weight_lb lower) (ground_roll_ft lower)
               (weight_lb upper) (ground_roll_ft upper) = Inr rg"
    using weightInterp_ok by blast
  have "to_clear_50ft_ft lower \<noteq> []" using dl two by auto
  moreover have "length (to_clear_50ft_ft lower) \<le> length (to_clear_50ft_ft upper)"
    using dl du by simp
  ultimately obtain og where og: "weightInterp (weightLb inp) (weight_lb lower) (to_clear_50ft_ft lower)
               (weight_lb upper) (to_clear_50ft_ft upper) = Inr og"
    using weightInterp_ok by blast
  have rows: "i + 1 < length ?xs" using clampIndex_rows [OF i] two by simp
  have lrg: "i + 1 < length rg" using weightInterp_length [OF rg] dl rows by simp
  have log: "i + 1 < length og" using weightInterp_length [OF og] dl rows by simp
  have "\<exists>r. bilinear (pressureAltitudeFt inp) (oatC inp) ?xs ?ys rg = Inr r"
    by (rule bilinear_no_fault) (use i lrg in simp)
  then obtain roll where r: "bilinear (pressureAltitudeFt inp) (oatC inp) ?xs ?ys rg = Inr roll"
    by blast
  have "\<exists>r. bilinear (pressureAltitudeFt inp) (oatC inp) ?xs ?ys og = Inr r"
    by (rule bilinear_no_fault) (use i log in simp)
  then obtain over50 where v: "bilinear (pressureAltitudeFt inp) (oatC inp) ?xs ?ys og = Inr over50"
    by blast
  have nocl: "\<not> (pressure_altitudes_ft (grid data) \<noteq> []
                    \<and> pressureAltitudeFt inp < normalizePA (hd (pressure_altitudes_ft (grid data))))"
    using i by (auto simp: clampIndex_def hd_conv_nth split: if_splits)
  have pa: "pressureAltitudeFt inp = (if pressure_altitudes_ft (grid data) \<noteq> []
                    \<and> pressureAltitudeFt inp < normalizePA (hd (pressure_altitudes_ft (grid data)))
                   then normalizePA (hd (pressure_altitudes_ft (grid data)))
                   else pressureAltitudeFt inp)"
    using nocl by simp
  note path = calculate_in_range [OF sne lo' hi' br rg og r v pa refl refl]
  have main: "bilinear (pressureAltitudeFt inp) (oatC inp) ?xs ?ys g = Inr None
                  \<and> calculate data inp =
                      Inr \<lparr>groundRollFt = None, toClear50Ft = None,
                           liftoffKIAS = Some (Fin (math_round (lerp (liftoff (speeds_kias lower))
                               (liftoff (speeds_kias upper))
                               ((weightLb inp - weight_lb lower) / or1 (weight_lb upper - weight_lb lower))))),
                           at50ftKIAS = Some (Fin (math_round (lerp (at_50ft (speeds_kias lower))
                               (at_50ft (speeds_kias upper))
                               ((weightLb inp - weight_lb lower) / or1 (weight_lb upper - weight_lb lower))))),
                           out_notes = [extrapolation_note]\<rparr>"
    if g: "g = rg \<or> g = og"
      and gap: "cell (g ! i) j = None \<or> cell (g ! i) (j + 1) = None
                    \<or> cell (g ! (i + 1)) j = None \<or> cell (g ! (i + 1)) (j + 1) = None"
    for g
  proof -
    have lg: "i + 1 < length g" using g lrg log by auto
    have none: "bilinear (pressureAltitudeFt inp) (oatC inp) ?xs ?ys g = Inr None"
      by (rule bilinear_corner [OF i j lg gap])
    from none g r v have absent: "roll = None \<or> over50 = None" by auto
    from path absent nocl have "calculate data inp =
                      Inr \<lparr>groundRollFt = None, toClear50Ft = None,
                           liftoffKIAS = Some (Fin (math_round (lerp (liftoff (speeds_kias lower))
                               (liftoff (speeds_kias upper))
                               ((weightLb inp - weight_lb lower) / or1 (weight_lb upper - weight_lb lower))))),
                           at50ftKIAS = Some (Fin (math_round (lerp (at_50ft (speeds_kias lower))
                               (at_50ft (speeds_kias upper))
                               ((weightLb inp - weight_lb lower) / or1 (weight_lb upper - weight_lb lower))))),
                           out_notes = [extrapolation_note]\<rparr>"
      by (auto split: option.splits)
    with none show ?thesis by simp
  qed
  from rg og main show ?thesis by blast
qed

lemmas gap_defs = toy_gap_def row1000_gap_def row900_def row1000_def table_defs

theorem C3_null_propagation_witness:
  "table_inv toy_gap
   \<and> 2 \<le> length (pressure_altitudes_ft (grid toy_gap))
   \<and> Min (weight_lb ` set (weights (grid toy_gap))) \<le> weightLb (req 950 1000 10 0 False)
   \<and> weightLb (req 950 1000 10 0 False) \<le> Max (weight_lb ` set (weights (grid toy_gap)))
   \<and> bracket (weightLb (req 950 1000 10 0 False)) (weightsSorted toy_gap) = (row900, row1000_gap)
   \<and> clampIndex (pressureAltitudeFt (req 950 1000 10 0 False))
         (map normalizePA (pressure_altitudes_ft (grid toy_gap))) = Some 0
   \<and> clampIndex (oatC (req 950 1000 10 0 False)) (temperatures_c (grid toy_gap)) = Some 0
   \<and> weightInterp (weightLb (req 950 1000 10 0 False)) (weight_lb row900) (ground_roll_ft row900)
         (weight_lb row1000_gap) (ground_roll_ft row1000_gap)
       = Inr [[Some (Fin 525), Some (Fin 525)], [Some (Fin 630), None]]
   \<and> cell ([[Some (Fin 525), Some (Fin 525)], [Some (Fin 630), None]] ! (0 + 1)) (0 + 1)
       = (None :: num option)
   \<and> bilinear (pressureAltitudeFt (req 950 1000 10 0 False)) (oatC (req 950 1000 10 0 False))
         (map normalizePA (pressure_altitudes_ft (grid toy_gap)))
         (temperatures_c (grid toy_gap)) [[Some (Fin 525), Some (Fin 525)], [Some (Fin 630), None]]
       = Inr None
   \<and> calculate toy_gap (req 950 1000 10 0 False)
       = Inr \<lparr>groundRollFt = None, toClear50Ft = None, liftoffKIAS = Some (Fin 51),
              at50ftKIAS = Some (Fin 57), out_notes = [extrapolation_note]\<rparr>"
proof -
  let ?r = "req 950 1000 10 0 False"
  let ?rg = "[[Some (Fin 525), Some (Fin 525)], [Some (Fin 630), None]] :: blended"
  have inv: "table_inv toy_gap" by (simp add: table_inv_def gap_defs dims_ok_def)
  have two: "2 \<le> length (pressure_altitudes_ft (grid toy_gap))" by (simp add: gap_defs)
  have lo: "Min (weight_lb ` set (weights (grid toy_gap))) \<le> weightLb ?r" by (simp add: gap_defs)
  have hi: "weightLb ?r \<le> Max (weight_lb ` set (weights (grid toy_gap)))" by (simp add: gap_defs)
  have br: "bracket (weightLb ?r) (weightsSorted toy_gap) = (row900, row1000_gap)"
    by (simp add: bracket_def weightsSorted_def gap_defs)
  have i: "clampIndex (pressureAltitudeFt ?r) (map normalizePA (pressure_altitudes_ft (grid toy_gap))) = Some 0"
    by (simp add: engine_defs gap_defs)
  have j: "clampIndex (oatC ?r) (temperatures_c (grid toy_gap)) = Some 0"
    by (simp add: engine_defs gap_defs)
  have rg: "weightInterp (weightLb ?r) (weight_lb row900) (ground_roll_ft row900)
               (weight_lb row1000_gap) (ground_roll_ft row1000_gap) = Inr ?rg"
    by (simp add: engine_defs gap_defs)
  have gap: "cell (?rg ! (0 + 1)) (0 + 1) = None" by (simp add: cell_def)
  from C3_null_propagation [OF inv two lo hi br i j] obtain rollGrid over50Grid where
    rg': "weightInterp (weightLb ?r) (weight_lb row900) (ground_roll_ft row900)
               (weight_lb row1000_gap) (ground_roll_ft row1000_gap) = Inr rollGrid"
    and all: "\<And>g. (g = rollGrid \<or> g = over50Grid)
                \<and> (cell (g ! 0) 0 = None \<or> cell (g ! 0) (0 + 1) = None
                    \<or> cell (g ! (0 + 1)) 0 = None \<or> cell (g ! (0 + 1)) (0 + 1) = None)
              \<Longrightarrow> bilinear (pressureAltitudeFt ?r) (oatC ?r)
                    (map normalizePA (pressure_altitudes_ft (grid toy_gap)))
                    (temperatures_c (grid toy_gap)) g = Inr None
                  \<and> calculate toy_gap ?r =
                      Inr \<lparr>groundRollFt = None, toClear50Ft = None,
                           liftoffKIAS = Some (Fin (math_round (lerp (liftoff (speeds_kias row900))
                               (liftoff (speeds_kias row1000_gap))
                               ((weightLb ?r - weight_lb row900) / or1 (weight_lb row1000_gap - weight_lb row900))))),
                           at50ftKIAS = Some (Fin (math_round (lerp (at_50ft (speeds_kias row900))
                               (at_50ft (speeds_kias row1000_gap))
                               ((weightLb ?r - weight_lb row900) / or1 (weight_lb row1000_gap - weight_lb row900))))),
                           out_notes = [extrapolation_note]\<rparr>"
    by blast
  from rg rg' have same: "rollGrid = ?rg" by simp
  have sp: "math_round (lerp (liftoff (speeds_kias row900)) (liftoff (speeds_kias row1000_gap))
              ((weightLb ?r - weight_lb row900) / or1 (weight_lb row1000_gap - weight_lb row900))) = 51"
     "math_round (lerp (at_50ft (speeds_kias row900)) (at_50ft (speeds_kias row1000_gap))
              ((weightLb ?r - weight_lb row900) / or1 (weight_lb row1000_gap - weight_lb row900))) = 57"
    by (simp_all add: engine_defs gap_defs)
  from all [of ?rg] same gap have
    "bilinear (pressureAltitudeFt ?r) (oatC ?r)
         (map normalizePA (pressure_altitudes_ft (grid toy_gap)))
         (temperatures_c (grid toy_gap)) ?rg = Inr None
     \<and> calculate toy_gap ?r
       = Inr \<lparr>groundRollFt = None, toClear50Ft = None, liftoffKIAS = Some (Fin 51),
              at50ftKIAS = Some (Fin 57), out_notes = [extrapolation_note]\<rparr>"
    unfolding sp by simp
  with inv two lo hi br i j rg gap show ?thesis by simp
qed

section \<open>Rows of equal weight\<close>

lemmas twin_defs = twins_def twin_a_def twin_b_def row1000_gap_def row1000_def table_defs

lemma blend_zero: "blend a b (Fin 0) = (if b = None then None else map_option Fin a)"
  by (cases a; cases b) (simp_all add: blend_def lerp_def)

lemma blend_same: "blend a a (Fin t) = map_option Fin a"
  by (cases a) (simp_all add: blend_def lerp_def)

lemma weightInterp_same:
  assumes "lg \<noteq> []" and "list_all (\<lambda>r. length r = length (hd lg)) lg"
  shows "weightInterp w lw lg lw lg = Inr (map (map (map_option Fin)) lg)"
proof -
  obtain g where g: "weightInterp w lw lg lw lg = Inr g"
    using weightInterp_ok [OF assms(1), of lg w lw lw] by auto
  have len: "length g = length lg" by (rule weightInterp_length [OF g])
  from g obtain r0 rest where lg: "lg = r0 # rest"
    by (auto simp: weightInterp_def split: list.splits)
  have rowlen: "length (g ! i) = length (lg ! i)" if "i < length lg" for i
  proof -
    let ?t = "weight_frac w lw lw"
    from g lg have m: "mapE (\<lambda>i. mapE (\<lambda>j. blend_at lg lg ?t i j) [0..<length r0]) [0..<length lg] = Inr g"
      by (simp add: weightInterp_def Let_def)
    from mapE_nth [OF m, of i] that
    have "mapE (\<lambda>j. blend_at lg lg ?t i j) [0..<length r0] = Inr (g ! i)" by simp
    from mapE_length [OF this] have "length (g ! i) = length r0" by simp
    moreover have "length (lg ! i) = length r0"
      using assms(2) that lg by (auto simp: list_all_length)
    ultimately show ?thesis by simp
  qed
  have "g ! i = map (map_option Fin) (lg ! i)" if i: "i < length lg" for i
  proof (rule nth_equalityI)
    show "length (g ! i) = length (map (map_option Fin) (lg ! i))" using rowlen [OF i] by simp
  next
    fix k assume k: "k < length (g ! i)"
    then have k': "k < length (lg ! i)" using rowlen [OF i] by simp
    then have kh: "k < length (hd lg)" using assms(2) i by (auto simp: list_all_length)
    from weightInterp_cell [OF g i, of k] kh
    have "cell (g ! i) k = map_option Fin (cell (lg ! i) k)"
      by (simp add: blend_same weight_frac_Fin)
    with k k' show "g ! i ! k = map (map_option Fin) (lg ! i) ! k" by (simp add: cell_def)
  qed
  with len have "g = map (map (map_option Fin)) lg" by (intro nth_equalityI) auto
  with g show ?thesis by simp
qed

text \<open>
  C9, as stated, fails in its last part: with two stored rows of the same weight the bracket
  is that pair, the fraction is 0 and nothing faults, but a cell that is absent in the upper
  row is absent in the blended grid although the lower row has a value there.
\<close>

theorem C9_counterexample:
  "bracket (weightLb (req 1000 2000 20 0 False)) (weightsSorted (twins [twin_a, twin_b]))
     = (twin_a, twin_b)
   \<and> weight_lb twin_b = weight_lb twin_a
   \<and> weightInterp 1000 (weight_lb twin_a) (ground_roll_ft twin_a)
         (weight_lb twin_b) (ground_roll_ft twin_b)
       = Inr [[Some (Fin 500), Some (Fin 500)], [Some (Fin 600), None]]
   \<and> ground_roll_ft twin_a = [[Some 500, Some 500], [Some 600, Some 600]]
   \<and> calculate (twins [twin_a, twin_b]) (req 1000 2000 20 0 False)
       = Inr \<lparr>groundRollFt = None, toClear50Ft = None, liftoffKIAS = Some (Fin 50),
              at50ftKIAS = Some (Fin 55), out_notes = [extrapolation_note]\<rparr>"
  by (simp add: engine_defs twin_defs)

text \<open>
  C9, amended. For every table with at least one weight row and every request whose weight
  lies within the table weights: when the two rows of the bracket have the same weight, the
  divisor of the blend fraction is 1, not 0, and the fraction is the number 0, not \<open>NaN\<close>;
  the blended speeds are the lower row's speeds, and the speeds returned are these rounded;
  a blended cell is absent when the cell of the upper row is absent and is the cell of the
  lower row otherwise; and when upper and lower are one and the same row with rows of equal
  length, the blended grid is the grid of that row.
\<close>

theorem C9_equal_weights:
  assumes ne: "weights (grid data) \<noteq> []"
    and lo: "Min (weight_lb ` set (weights (grid data))) \<le> weightLb inp"
    and hi: "weightLb inp \<le> Max (weight_lb ` set (weights (grid data)))"
    and br: "bracket (weightLb inp) (weightsSorted data) = (lower, upper)"
    and eq: "weight_lb upper = weight_lb lower"
  shows "or1 (weight_lb upper - weight_lb lower) = 1
       \<and> weight_frac (weightLb inp) (weight_lb lower) (weight_lb upper) = Fin 0
       \<and> lerp_num (Fin (liftoff (speeds_kias lower))) (Fin (liftoff (speeds_kias upper)))
            (weight_frac (weightLb inp) (weight_lb lower) (weight_lb upper))
           = Fin (liftoff (speeds_kias lower))
       \<and> lerp_num (Fin (at_50ft (speeds_kias lower))) (Fin (at_50ft (speeds_kias upper)))
            (weight_frac (weightLb inp) (weight_lb lower) (weight_lb upper))
           = Fin (at_50ft (speeds_kias lower))
       \<and> (\<forall>out. calculate data inp = Inr out \<longrightarrow>
              liftoffKIAS out = Some (Fin (math_round (liftoff (speeds_kias lower))))
              \<and> at50ftKIAS out = Some (Fin (math_round (at_50ft (speeds_kias lower)))))
       \<and> (\<forall>lg ug g i k.
              weightInterp (weightLb inp) (weight_lb lower) lg (weight_lb upper) ug = Inr g
              \<and> i < length lg \<and> k < length (hd lg) \<longrightarrow>
              cell (g ! i) k
                = (if cell (ug ! i) k = None then None else map_option Fin (cell (lg ! i) k)))
       \<and> (\<forall>lg. lg \<noteq> [] \<and> list_all (\<lambda>r. length r = length (hd lg)) lg \<longrightarrow>
              weightInterp (weightLb inp) (weight_lb lower) lg (weight_lb upper) lg
                = Inr (map (map (map_option Fin)) lg))"
proof -
  have sne: "weightsSorted data \<noteq> []" using ne by (simp add: weightsSorted_Nil)
  have lo': "weight_lb (hd (weightsSorted data)) \<le> weightLb inp"
    using lo wMin_is_Min [OF ne] by simp
  have hi': "weightLb inp \<le> weight_lb (last (weightsSorted data))"
    using hi wMax_is_Max [OF ne] by simp
  from bracket_encloses [OF sne lo' hi' br] eq have w: "weightLb inp = weight_lb lower" by simp
  have guard: "or1 (weight_lb upper - weight_lb lower) = 1" using eq by (simp add: or1_def)
  have t0: "weight_frac (weightLb inp) (weight_lb lower) (weight_lb upper) = Fin 0"
    using w guard by (simp add: weight_frac_def Let_def)
  have sp: "lerp_num (Fin a) (Fin b) (weight_frac (weightLb inp) (weight_lb lower) (weight_lb upper)) = Fin a"
    for a b by (simp add: t0 lerp_def)
  have out: "liftoffKIAS out = Some (Fin (math_round (liftoff (speeds_kias lower))))
              \<and> at50ftKIAS out = Some (Fin (math_round (at_50ft (speeds_kias lower))))"
    if "calculate data inp = Inr out" for out
    using that sne lo' hi' br sp
    by (auto simp: calculate_def Let_def split: sum.splits option.splits prod.splits if_splits)
  have cells: "cell (g ! i) k
                = (if cell (ug ! i) k = None then None else map_option Fin (cell (lg ! i) k))"
    if "weightInterp (weightLb inp) (weight_lb lower) lg (weight_lb upper) ug = Inr g"
      and "i < length lg" and "k < length (hd lg)" for lg ug g i k
    using weightInterp_cell [OF that(1) that(2), of k] that(3)
    by (simp add: blend_zero t0)
  have same: "weightInterp (weightLb inp) (weight_lb lower) lg (weight_lb upper) lg
                = Inr (map (map (map_option Fin)) lg)"
    if "lg \<noteq> []" and "list_all (\<lambda>r. length r = length (hd lg)) lg" for lg
    using weightInterp_same [OF that] eq by simp
  from guard t0 sp out cells same show ?thesis by blast
qed

theorem C9_equal_weights_witness:
  "weights (grid (twins [twin_a, twin_b])) \<noteq> []
   \<and> Min (weight_lb ` set (weights (grid (twins [twin_a, twin_b])))) \<le> weightLb (req 1000 2000 20 0 False)
   \<and> weightLb (req 1000 2000 20 0 False) \<le> Max (weight_lb ` set (weights (grid (twins [twin_a, twin_b]))))
   \<and> bracket (weightLb (req 1000 2000 20 0 False)) (weightsSorted (twins [twin_a, twin_b]))
       = (twin_a, twin_b)
   \<and> weight_lb twin_b = weight_lb twin_a
   \<and> or1 (weight_lb twin_b - weight_lb twin_a) = 1
   \<and> weight_frac (weightLb (req 1000 2000 20 0 False)) (weight_lb twin_a) (weight_lb twin_b) = Fin 0"
proof -
  let ?r = "req 1000 2000 20 0 False"
  let ?T = "twins [twin_a, twin_b]"
  have ne: "weights (grid ?T) \<noteq> []" by (simp add: twin_defs)
  have lo: "Min (weight_lb ` set (weights (grid ?T))) \<le> weightLb ?r" by (simp add: twin_defs)
  have hi: "weightLb ?r \<le> Max (weight_lb ` set (weights (grid ?T)))" by (simp add: twin_defs)
  have br: "bracket (weightLb ?r) (weightsSorted ?T) = (twin_a, twin_b)"
    by (simp add: bracket_def weightsSorted_def twin_defs)
  have eq: "weight_lb twin_b = weight_lb twin_a" by (simp add: twin_defs)
  note inst = C9_equal_weights [OF ne lo hi br eq]
  from inst [THEN conjunct1] inst [THEN conjunct2, THEN conjunct1] ne lo hi br eq
  show ?thesis by blast
qed

section \<open>The stored order of the weight rows\<close>

lemma filter_key_single:
  "distinct (map f zs) \<Longrightarrow> k \<in> set zs \<Longrightarrow> filter (\<lambda>x. f k = f x) zs = [k]"
proof (induction zs)
  case Nil
  then show ?case by simp
next
  case (Cons z zs)
  show ?case
  proof (cases "k = z")
    case True
    have "filter (\<lambda>x. f z = f x) zs = []"
      using Cons.prems(1) by (auto simp: filter_empty_conv)
    with True show ?thesis by simp
  next
    case False
    with Cons.prems have k: "k \<in> set zs" by simp
    have "f z \<notin> f ` set zs" using Cons.prems(1) by simp
    then have "f k \<noteq> f z" using k by (metis imageI)
    with Cons k show ?thesis by simp
  qed
qed

lemma sort_key_permuted:
  assumes perm: "mset ys = mset xs" and dist: "distinct (map f xs)"
  shows "sort_key f ys = sort_key f xs"
proof (rule properties_for_sort_key)
  show "mset (sort_key f xs) = mset ys" using perm by simp
  show "sorted (map f (sort_key f xs))" by simp
  fix k assume "k \<in> set (sort_key f xs)"
  then have kx: "k \<in> set xs" by simp
  then have ky: "k \<in> set ys" using perm by (metis mset_eq_setD)
  have "mset (map f ys) = mset (map f xs)" using perm by simp
  then have dy: "distinct (map f ys)" using dist by (metis mset_eq_imp_distinct_iff)
  have "mset (map f (sort_key f xs)) = mset (map f xs)" by simp
  then have ds: "distinct (map f (sort_key f xs))" using dist by (metis mset_eq_imp_distinct_iff)
  have "k \<in> set (sort_key f xs)" using kx by simp
  from filter_key_single [OF ds this] filter_key_single [OF dy ky]
  show "filter (\<lambda>x. f k = f x) (sort_key f xs) = filter (\<lambda>x. f k = f x) ys" by simp
qed

text \<open>
  C10, as stated, fails: the sort is stable, so two stored rows of the same weight keep
  their stored order, and swapping them swaps lower and upper.
\<close>

theorem C10_counterexample:
  "mset (weights (grid (twins [row1000, twin_a]))) = mset (weights (grid (twins [twin_a, row1000])))
   \<and> calculate (twins [twin_a, row1000]) (req 1000 0 0 0 False)
       = Inr \<lparr>groundRollFt = Some (Fin 500), toClear50Ft = Some (Fin 945),
              liftoffKIAS = Some (Fin 50), at50ftKIAS = Some (Fin 55), out_notes = []\<rparr>
   \<and> calculate (twins [row1000, twin_a]) (req 1000 0 0 0 False)
       = Inr \<lparr>groundRollFt = Some (Fin 550), toClear50Ft = Some (Fin 1000),
              liftoffKIAS = Some (Fin 52), at50ftKIAS = Some (Fin 58), out_notes = []\<rparr>"
  by (simp add: engine_defs twin_defs add_mset_commute)

text \<open>
  C10, amended. For every pair of tables with the same axes whose weight rows are a
  permutation of each other and have pairwise distinct weights, and for every request,
  calculate returns the same result, fault or output, on both.
\<close>

theorem C10_order_irrelevant:
  assumes perm: "mset (weights (grid data2)) = mset (weights (grid data1))"
    and alts: "pressure_altitudes_ft (grid data2) = pressure_altitudes_ft (grid data1)"
    and temps: "temperatures_c (grid data2) = temperatures_c (grid data1)"
    and dist: "distinct (map weight_lb (weights (grid data1)))"
  shows "calculate data2 inp = calculate data1 inp"
proof -
  have "weightsSorted data2 = weightsSorted data1"
    unfolding weightsSorted_def by (rule sort_key_permuted [OF perm dist])
  with alts temps show ?thesis by (simp add: calculate_def)
qed

theorem C10_order_irrelevant_witness:
  "mset (weights (grid (toy_table SL [row900, row1000]))) = mset (weights (grid toy))
   \<and> pressure_altitudes_ft (grid (toy_table SL [row900, row1000])) = pressure_altitudes_ft (grid toy)
   \<and> temperatures_c (grid (toy_table SL [row900, row1000])) = temperatures_c (grid toy)
   \<and> distinct (map weight_lb (weights (grid toy)))
   \<and> calculate (toy_table SL [row900, row1000]) (req 950 1000 10 9 True)
       = calculate toy (req 950 1000 10 9 True)"
proof -
  let ?T = "toy_table SL [row900, row1000]"
  have perm: "mset (weights (grid ?T)) = mset (weights (grid toy))"
    by (simp add: toy_defs add_mset_commute)
  have alts: "pressure_altitudes_ft (grid ?T) = pressure_altitudes_ft (grid toy)" by (simp add: toy_defs)
  have temps: "temperatures_c (grid ?T) = temperatures_c (grid toy)" by (simp add: toy_defs)
  have dist: "distinct (map weight_lb (weights (grid toy)))" by (simp add: toy_defs)
  from C10_order_irrelevant [OF perm alts temps dist] perm alts temps dist show ?thesis by simp
qed


section \<open>Results with both distances computed\<close>

lemma working_pa_nth:
  "working_pa data inp =
     (if map normalizePA (pressure_altitudes_ft (grid data)) \<noteq> []
         \<and> pressureAltitudeFt inp < map normalizePA (pressure_altitudes_ft (grid data)) ! 0
      then map normalizePA (pressure_altitudes_ft (grid data)) ! 0
      else pressureAltitudeFt inp)"
  by (cases "pressure_altitudes_ft (grid data)") (simp_all add: working_pa_def)

lemma calculate_fault_roll_grid:
  assumes "weightsSorted data \<noteq> []"
    and "weight_lb (hd (weightsSorted data)) \<le> weightLb inp"
    and "weightLb inp \<le> weight_lb (last (weightsSorted data))"
    and "bracket (weightLb inp) (weightsSorted data) = (lower, upper)"
    and "weightInterp (weightLb inp) (weight_lb lower) (ground_roll_ft lower)
               (weight_lb upper) (ground_roll_ft upper) = Inl e"
  shows "calculate data inp = Inl e"
  using assms by (simp add: calculate_def Let_def)

lemma calculate_fault_over_grid:
  assumes "weightsSorted data \<noteq> []"
    and "weight_lb (hd (weightsSorted data)) \<le> weightLb inp"
    and "weightLb inp \<le> weight_lb (last (weightsSorted data))"
    and "bracket (weightLb inp) (weightsSorted data) = (lower, upper)"
    and "weightInterp (weightLb inp) (weight_lb lower) (ground_roll_ft lower)
               (weight_lb upper) (ground_roll_ft upper) = Inr rg"
    and "weightInterp (weightLb inp) (weight_lb lower) (to_clear_50ft_ft lower)
               (weight_lb upper) (to_clear_50ft_ft upper) = Inl e"
  shows "calculate data inp = Inl e"
  using assms by (simp add: calculate_def Let_def)

lemma calculate_fault_roll:
  assumes "weightsSorted data \<noteq> []"
    and "weight_lb (hd (weightsSorted data)) \<le> weightLb inp"
    and "weightLb inp \<le> weight_lb (last (weightsSorted data))"
    and "bracket (weightLb inp) (weightsSorted data) = (lower, upper)"
    and "weightInterp (weightLb inp) (weight_lb lower) (ground_roll_ft lower)
               (weight_lb upper) (ground_roll_ft upper) = Inr rg"
    and "weightInterp (weightLb inp) (weight_lb lower) (to_clear_50ft_ft lower)
               (weight_lb upper) (to_clear_50ft_ft upper) = Inr og"
    and "bilinear (working_pa data inp) (oatC inp) (map normalizePA (pressure_altitudes_ft (grid data)))
               (temperatures_c (grid data)) rg = Inl e"
  shows "calculate data inp = Inl e"
  using assms unfolding working_pa_nth by (simp add: calculate_def Let_def)

lemma calculate_fault_over:
  assumes "weightsSorted data \<noteq> []"
    and "weight_lb (hd (weightsSorted data)) \<le> weightLb inp"
    and "weightLb inp \<le> weight_lb (last (weightsSorted data))"
    and "bracket (weightLb inp) (weightsSorted data) = (lower, upper)"
    and "weightInterp (weightLb inp) (weight_lb lower) (ground_roll_ft lower)
               (weight_lb upper) (ground_roll_ft upper) = Inr rg"
    and "weightInterp (weightLb inp) (weight_lb lower) (to_clear_50ft_ft lower)
               (weight_lb upper) (to_clear_50ft_ft upper) = Inr og"
    and "bilinear (working_pa data inp) (oatC inp) (map normalizePA (pressure_altitudes_ft (grid data)))
               (temperatures_c (grid data)) rg = Inr roll"
    and "bilinear (working_pa data inp) (oatC inp) (map normalizePA (pressure_altitudes_ft (grid data)))
               (temperatures_c (grid data)) og = Inl e"
  shows "calculate data inp = Inl e"
  using assms unfolding working_pa_nth by (simp add: calculate_def Let_def)

lemma calculate_Some_inv:
  assumes ret: "calculate data inp = Inr out" and some: "groundRollFt out = Some a"
  obtains lower upper rg og roll0 over0 where
    "weightsSorted data \<noteq> []"
    "weight_lb (hd (weightsSorted data)) \<le> weightLb inp"
    "weightLb inp \<le> weight_lb (last (weightsSorted data))"
    "bracket (weightLb inp) (weightsSorted data) = (lower, upper)"
    "weightInterp (weightLb inp) (weight_lb lower) (ground_roll_ft lower)
               (weight_lb upper) (ground_roll_ft upper) = Inr rg"
    "weightInterp (weightLb inp) (weight_lb lower) (to_clear_50ft_ft lower)
               (weight_lb upper) (to_clear_50ft_ft upper) = Inr og"
    "bilinear (working_pa data inp) (oatC inp) (map normalizePA (pressure_altitudes_ft (grid data)))
               (temperatures_c (grid data)) rg = Inr (Some roll0)"
    "bilinear (working_pa data inp) (oatC inp) (map normalizePA (pressure_altitudes_ft (grid data)))
               (temperatures_c (grid data)) og = Inr (Some over0)"
proof -
  let ?xs = "map normalizePA (pressure_altitudes_ft (grid data))"
  have sne: "weightsSorted data \<noteq> []"
    using ret by (auto simp: calculate_def Let_def split: if_splits)
  have "\<not> (weightLb inp < weight_lb (hd (weightsSorted data))
           \<or> weightLb inp > weight_lb (last (weightsSorted data)))"
  proof
    assume "weightLb inp < weight_lb (hd (weightsSorted data))
           \<or> weightLb inp > weight_lb (last (weightsSorted data))"
    with sne have "groundRollFt out = None" using ret by (auto simp: calculate_def Let_def)
    with some show False by simp
  qed
  then have lo: "weight_lb (hd (weightsSorted data)) \<le> weightLb inp"
    and hi: "weightLb inp \<le> weight_lb (last (weightsSorted data))" by auto
  obtain lower upper where br: "bracket (weightLb inp) (weightsSorted data) = (lower, upper)"
    by (cases "bracket (weightLb inp) (weightsSorted data)") auto
  obtain rg where rg: "weightInterp (weightLb inp) (weight_lb lower) (ground_roll_ft lower)
               (weight_lb upper) (ground_roll_ft upper) = Inr rg"
    using calculate_fault_roll_grid [OF sne lo hi br] ret
    by (cases "weightInterp (weightLb inp) (weight_lb lower) (ground_roll_ft lower)
               (weight_lb upper) (ground_roll_ft upper)") auto
  obtain og where og: "weightInterp (weightLb inp) (weight_lb lower) (to_clear_50ft_ft lower)
               (weight_lb upper) (to_clear_50ft_ft upper) = Inr og"
    using calculate_fault_over_grid [OF sne lo hi br rg] ret
    by (cases "weightInterp (weightLb inp) (weight_lb lower) (to_clear_50ft_ft lower)
               (weight_lb upper) (to_clear_50ft_ft upper)") auto
  obtain roll where r: "bilinear (working_pa data inp) (oatC inp) ?xs
               (temperatures_c (grid data)) rg = Inr roll"
    using calculate_fault_roll [OF sne lo hi br rg og] ret
    by (cases "bilinear (working_pa data inp) (oatC inp) ?xs (temperatures_c (grid data)) rg") auto
  obtain over50 where v: "bilinear (working_pa data inp) (oatC inp) ?xs
               (temperatures_c (grid data)) og = Inr over50"
    using calculate_fault_over [OF sne lo hi br rg og r] ret
    by (cases "bilinear (working_pa data inp) (oatC inp) ?xs (temperatures_c (grid data)) og") auto
  from calculate_in_range [OF sne lo hi br rg og r v working_pa_def refl refl] ret some
  obtain roll0 over0 where "roll = Some roll0" "over50 = Some over0"
    by (cases roll; cases over50) auto
  with that [OF sne lo hi br rg og] r v show thesis by simp
qed

lemma calculate_computed:
  assumes ret: "calculate data inp = Inr out" and some: "groundRollFt out = Some a"
  shows "\<exists>roll0 over0. \<forall>wind g.
           calculate data (inp\<lparr>windKtSigned := wind, dryGrass := g\<rparr>)
             = Inr (out\<lparr>groundRollFt := Some (fst (finish (inp\<lparr>windKtSigned := wind, dryGrass := g\<rparr>) roll0 over0)),
                        toClear50Ft := Some (snd (finish (inp\<lparr>windKtSigned := wind, dryGrass := g\<rparr>) roll0 over0))\<rparr>)"
proof -
  from calculate_Some_inv [OF ret some] obtain lower upper rg og roll0 over0 where
    f: "weightsSorted data \<noteq> []"
    "weight_lb (hd (weightsSorted data)) \<le> weightLb inp"
    "weightLb inp \<le> weight_lb (last (weightsSorted data))"
    "bracket (weightLb inp) (weightsSorted data) = (lower, upper)"
    "weightInterp (weightLb inp) (weight_lb lower) (ground_roll_ft lower)
               (weight_lb upper) (ground_roll_ft upper) = Inr rg"
    "weightInterp (weightLb inp) (weight_lb lower) (to_clear_50ft_ft lower)
               (weight_lb upper) (to_clear_50ft_ft upper) = Inr og"
    "bilinear (working_pa data inp) (oatC inp) (map normalizePA (pressure_altitudes_ft (grid data)))
               (temperatures_c (grid data)) rg = Inr (Some roll0)"
    "bilinear (working_pa data inp) (oatC inp) (map normalizePA (pressure_altitudes_ft (grid data)))
               (temperatures_c (grid data)) og = Inr (Some over0)"
    by blast
  note base = calculate_in_range [OF f working_pa_def refl refl]
  have "calculate data (inp\<lparr>windKtSigned := wind, dryGrass := g\<rparr>)
             = Inr (out\<lparr>groundRollFt := Some (fst (finish (inp\<lparr>windKtSigned := wind, dryGrass := g\<rparr>) roll0 over0)),
                        toClear50Ft := Some (snd (finish (inp\<lparr>windKtSigned := wind, dryGrass := g\<rparr>) roll0 over0))\<rparr>)"
    for wind g
  proof -
    let ?inp = "inp\<lparr>windKtSigned := wind, dryGrass := g\<rparr>"
    have wp: "working_pa data ?inp = working_pa data inp" by (simp add: working_pa_def)
    have f': "weightsSorted data \<noteq> []"
      "weight_lb (hd (weightsSorted data)) \<le> weightLb ?inp"
      "weightLb ?inp \<le> weight_lb (last (weightsSorted data))"
      "bracket (weightLb ?inp) (weightsSorted data) = (lower, upper)"
      "weightInterp (weightLb ?inp) (weight_lb lower) (ground_roll_ft lower)
               (weight_lb upper) (ground_roll_ft upper) = Inr rg"
      "weightInterp (weightLb ?inp) (weight_lb lower) (to_clear_50ft_ft lower)
               (weight_lb upper) (to_clear_50ft_ft upper) = Inr og"
      "bilinear (working_pa data ?inp) (oatC ?inp) (map normalizePA (pressure_altitudes_ft (grid data)))
               (temperatures_c (grid data)) rg = Inr (Some roll0)"
      "bilinear (working_pa data ?inp) (oatC ?inp) (map normalizePA (pressure_altitudes_ft (grid data)))
               (temperatures_c (grid data)) og = Inr (Some over0)"
      using f by (simp_all add: wp)
    from calculate_in_range [OF f' working_pa_def refl refl] base ret
    show ?thesis by auto
  qed
  then show ?thesis by blast
qed


section \<open>Wind and surface\<close>

lemma finish_Fin:
  "finish inp (Fin r0) (Fin v0) =
     (Fin (math_round (if dryGrass inp
                       then r0 * wind_mult (windKtSigned inp) + r0 * wind_mult (windKtSigned inp) * 0.15
                       else r0 * wind_mult (windKtSigned inp))),
      Fin (math_round (if dryGrass inp
                       then v0 * wind_mult (windKtSigned inp) + r0 * wind_mult (windKtSigned inp) * 0.15
                       else v0 * wind_mult (windKtSigned inp))))"
  by (simp add: finish_def apply_wind_def apply_grass_def wind_mult_def Let_def)

lemma finish_finite:
  assumes "fst (finish inp roll0 over0) = Fin a" and "snd (finish inp roll0 over0) = Fin b"
  shows "\<exists>r0 v0. roll0 = Fin r0 \<and> over0 = Fin v0"
  using assms
  by (cases roll0; cases over0)
     (auto simp: finish_def apply_wind_def apply_grass_def Let_def split: if_splits)

lemma round_bounds: "math_round x \<le> x + 1 / 2 \<and> x - 1 / 2 < math_round x"
  unfolding math_round_def by linarith


lemma round_int_gap:
  assumes "math_round p - math_round q - (math_round s - math_round t) < 2"
  shows "math_round p - math_round q - (math_round s - math_round t) \<le> 1"
proof -
  let ?k = "\<lfloor>p + 1 / 2\<rfloor> - \<lfloor>q + 1 / 2\<rfloor> - (\<lfloor>s + 1 / 2\<rfloor> - \<lfloor>t + 1 / 2\<rfloor>)"
  have e: "math_round p - math_round q - (math_round s - math_round t) = of_int ?k"
    by (simp add: math_round_def)
  with assms have "(of_int ?k :: real) < 2" by simp
  then have "?k < 2" by linarith
  then have "?k \<le> 1" by simp
  then have "(of_int ?k :: real) \<le> 1" by linarith
  with e show ?thesis by simp
qed




lemma within_rounding:
  fixes A a r :: real
  assumes "A \<le> r + r * 0.15 + 1 / 2" and "r + r * 0.15 - 1 / 2 < A"
    and "a \<le> r + 1 / 2" and "r - 1 / 2 < a"
  shows "\<bar>A - a * 1.15\<bar> \<le> 43 / 40"
proof -
  have d: "(0.15 :: real) = 3 / 20" "(1.15 :: real) = 23 / 20" by simp_all
  from assms show ?thesis unfolding d by linarith
qed

text \<open>
  C5, as stated, fails on the returned distances, which are rounded after the increment is
  added: on the two-row table at 950 lb, 0 ft, 0 degrees, no wind, the ground roll goes
  from 525 to 604 with dry grass (79 more) and the clear-50 distance from 973 to 1051 (78
  more).
\<close>

theorem C5_counterexample:
  "calculate toy (req 950 0 0 0 False)
     = Inr \<lparr>groundRollFt = Some (Fin 525), toClear50Ft = Some (Fin 973),
            liftoffKIAS = Some (Fin 51), at50ftKIAS = Some (Fin 57), out_notes = []\<rparr>
   \<and> calculate toy (req 950 0 0 0 True)
     = Inr \<lparr>groundRollFt = Some (Fin 604), toClear50Ft = Some (Fin 1051),
            liftoffKIAS = Some (Fin 51), at50ftKIAS = Some (Fin 57), out_notes = []\<rparr>
   \<and> (1051 :: real) - 973 \<noteq> 604 - 525"
  by (simp add: engine_defs toy_defs)

text \<open>
  C5, amended. For every table and every request for which the hard-surface result has
  both distances computed: there are two distances r and v (ground roll and clear-50 after
  the wind correction, before rounding) of which the hard-surface result returns the
  roundings, and the dry-grass result, equal in every other field, returns the roundings of
  r + 0.15 r and v + 0.15 r: one increment, 0.15 times the ground roll, added to both. On
  the returned, rounded values the dry-grass ground roll is within 1.075 ft of 1.15 times
  the hard-surface ground roll, and the increase of the clear-50 distance differs from the
  increase of the ground roll by at most 1 ft.
\<close>

theorem C5_surface_law:
  assumes ret: "calculate data (inp\<lparr>dryGrass := False\<rparr>) = Inr outF"
    and a: "groundRollFt outF = Some (Fin a)"
    and b: "toClear50Ft outF = Some (Fin b)"
  shows "\<exists>r v. a = math_round r \<and> b = math_round v
           \<and> calculate data (inp\<lparr>dryGrass := True\<rparr>)
               = Inr (outF\<lparr>groundRollFt := Some (Fin (math_round (r + r * 0.15))),
                          toClear50Ft := Some (Fin (math_round (v + r * 0.15)))\<rparr>)
           \<and> \<bar>math_round (r + r * 0.15) - a * 1.15\<bar> \<le> 43 / 40
           \<and> \<bar>(math_round (v + r * 0.15) - b) - (math_round (r + r * 0.15) - a)\<bar> \<le> 1"
proof -
  let ?inpF = "inp\<lparr>dryGrass := False\<rparr>"
  from calculate_computed [OF ret a] obtain roll0 over0 where
    all: "\<And>wind g. calculate data (?inpF\<lparr>windKtSigned := wind, dryGrass := g\<rparr>)
             = Inr (outF\<lparr>groundRollFt := Some (fst (finish (?inpF\<lparr>windKtSigned := wind, dryGrass := g\<rparr>) roll0 over0)),
                        toClear50Ft := Some (snd (finish (?inpF\<lparr>windKtSigned := wind, dryGrass := g\<rparr>) roll0 over0))\<rparr>)"
    by blast
  have idF: "?inpF\<lparr>windKtSigned := windKtSigned inp, dryGrass := False\<rparr> = ?inpF" by simp
  have idT: "?inpF\<lparr>windKtSigned := windKtSigned inp, dryGrass := True\<rparr> = inp\<lparr>dryGrass := True\<rparr>"
    by simp
  from all [where wind = "windKtSigned inp" and g = False] ret a b
  have fa: "fst (finish ?inpF roll0 over0) = Fin a" and fb: "snd (finish ?inpF roll0 over0) = Fin b"
    unfolding idF by (cases outF; simp)+
  from finish_finite [OF fa fb] obtain r0 v0 where fin: "roll0 = Fin r0" "over0 = Fin v0" by blast
  define r where "r = r0 * wind_mult (windKtSigned inp)"
  define v where "v = v0 * wind_mult (windKtSigned inp)"
  have ra: "a = math_round r" using fa by (simp add: fin finish_Fin r_def)
  have vb: "b = math_round v" using fb by (simp add: fin finish_Fin v_def)
  have grass: "calculate data (inp\<lparr>dryGrass := True\<rparr>)
               = Inr (outF\<lparr>groundRollFt := Some (Fin (math_round (r + r * 0.15))),
                          toClear50Ft := Some (Fin (math_round (v + r * 0.15)))\<rparr>)"
    using all [where wind = "windKtSigned inp" and g = True] unfolding idT
    by (simp add: fin finish_Fin r_def v_def)
  note rb = round_bounds [of r] round_bounds [of v] round_bounds [of "r + r * 0.15"]
    round_bounds [of "v + r * 0.15"]
  have within: "\<bar>math_round (r + r * 0.15) - a * 1.15\<bar> \<le> 43 / 40"
    unfolding ra by (rule within_rounding) (use rb in blast)+
  have up: "(math_round (v + r * 0.15) - math_round v) - (math_round (r + r * 0.15) - math_round r) \<le> 1"
    by (rule round_int_gap) (use rb in linarith)
  have down: "(math_round (r + r * 0.15) - math_round r) - (math_round (v + r * 0.15) - math_round v) \<le> 1"
    by (rule round_int_gap) (use rb in linarith)
  have shared: "\<bar>(math_round (v + r * 0.15) - b) - (math_round (r + r * 0.15) - a)\<bar> \<le> 1"
    using up down unfolding ra vb by (simp add: abs_le_iff)
  from ra vb grass within shared show ?thesis by blast
qed

theorem C5_surface_law_witness:
  "calculate toy ((req 950 0 0 0 False)\<lparr>dryGrass := False\<rparr>)
     = Inr \<lparr>groundRollFt = Some (Fin 525), toClear50Ft = Some (Fin 973),
            liftoffKIAS = Some (Fin 51), at50ftKIAS = Some (Fin 57), out_notes = []\<rparr>
   \<and> calculate toy ((req 950 0 0 0 False)\<lparr>dryGrass := True\<rparr>)
     = Inr \<lparr>groundRollFt = Some (Fin 604), toClear50Ft = Some (Fin 1051),
            liftoffKIAS = Some (Fin 51), at50ftKIAS = Some (Fin 57), out_notes = []\<rparr>
   \<and> \<bar>((1051 :: real) - 973) - (604 - 525)\<bar> \<le> 1"
proof -
  let ?out = "\<lparr>groundRollFt = Some (Fin 525), toClear50Ft = Some (Fin 973),
            liftoffKIAS = Some (Fin 51), at50ftKIAS = Some (Fin 57), out_notes = []\<rparr>"
  have ret: "calculate toy ((req 950 0 0 0 False)\<lparr>dryGrass := False\<rparr>) = Inr ?out"
    by (simp add: engine_defs toy_defs)
  have a: "groundRollFt ?out = Some (Fin 525)" and b: "toClear50Ft ?out = Some (Fin 973)" by simp_all
  from C5_surface_law [OF ret a b] obtain r v where
    law: "calculate toy ((req 950 0 0 0 False)\<lparr>dryGrass := True\<rparr>)
               = Inr (?out\<lparr>groundRollFt := Some (Fin (math_round (r + r * 0.15))),
                          toClear50Ft := Some (Fin (math_round (v + r * 0.15)))\<rparr>)"
    and gap: "\<bar>(math_round (v + r * 0.15) - 973) - (math_round (r + r * 0.15) - 525)\<bar> \<le> 1"
    by blast
  have grass: "calculate toy ((req 950 0 0 0 False)\<lparr>dryGrass := True\<rparr>)
     = Inr \<lparr>groundRollFt = Some (Fin 604), toClear50Ft = Some (Fin 1051),
            liftoffKIAS = Some (Fin 51), at50ftKIAS = Some (Fin 57), out_notes = []\<rparr>"
    by (simp add: engine_defs toy_defs)
  from law grass have "math_round (r + r * 0.15) = 604" "math_round (v + r * 0.15) = 1051"
    by simp_all
  with gap have "\<bar>((1051 :: real) - 973) - (604 - 525)\<bar> \<le> 1" by simp
  with ret grass show ?thesis by simp
qed


section \<open>Distances of a table without negative cells\<close>













end
